theory Spec2Isabelle
  imports Complex_Main
begin

section \<open>Shared types (src/types.ts)\<close>

text \<open>
  The wake-lock kinds, the error taxonomy and the values a JavaScript \<open>throw\<close> can carry.
  A thrown value is a \<open>WakeLockError\<close> (message, code, strategy name), any other
  \<open>Error\<close> (name, message) or a value that is no \<open>Error\<close> at all; the three are
  told apart by the \<open>instanceof\<close> tests of the source.  The \<open>originalError\<close> field of
  \<open>WakeLockError\<close> is never read by the code and is left out.
\<close>

datatype WakeLockType = Screen | System

datatype WakeLockErrorCode =
  NOT_SUPPORTED | PERMISSION_DENIED | INVALID_STATE | TIMEOUT | BATTERY_LOW
  | STRATEGY_FAILED | UNKNOWN

datatype js_error =
  WakeLockError string WakeLockErrorCode "string option"
  | JsError string string
  | NonError

datatype PermissionState = granted | denied | prompt

fun type_name :: "WakeLockType \<Rightarrow> string" where
  "type_name Screen = ''screen''"
| "type_name System = ''system''"

fun is_WakeLockError :: "js_error \<Rightarrow> bool" where
  "is_WakeLockError (WakeLockError m c s) = True"
| "is_WakeLockError (JsError n m) = False"
| "is_WakeLockError NonError = False"

text \<open>\<open>error instanceof Error ? error.message : dflt\<close>\<close>

fun message_or :: "string \<Rightarrow> js_error \<Rightarrow> string" where
  "message_or dflt (WakeLockError m c s) = m"
| "message_or dflt (JsError n m) = m"
| "message_or dflt NonError = dflt"

fun error_name :: "js_error \<Rightarrow> string" where
  "error_name (WakeLockError m c s) = ''WakeLockError''"
| "error_name (JsError n m) = n"
| "error_name NonError = []"

fun error_code :: "js_error \<Rightarrow> WakeLockErrorCode option" where
  "error_code (WakeLockError m c s) = Some c"
| "error_code (JsError n m) = None"
| "error_code NonError = None"

text \<open>\<open>String.prototype.includes\<close>: does \<open>sub\<close> occur in \<open>s\<close> as a contiguous run.\<close>

fun starts_with :: "string \<Rightarrow> string \<Rightarrow> bool" where
  "starts_with s [] = True"
| "starts_with [] (c # cs) = False"
| "starts_with (d # ds) (c # cs) = (d = c \<and> starts_with ds cs)"

fun str_includes :: "string \<Rightarrow> string \<Rightarrow> bool" where
  "str_includes [] sub = (sub = [])"
| "str_includes (d # ds) sub = (starts_with (d # ds) sub \<or> str_includes ds sub)"

text \<open>\<open>Array.prototype.join\<close>\<close>

fun join :: "string \<Rightarrow> string list \<Rightarrow> string" where
  "join sep [] = []"
| "join sep [x] = x"
| "join sep (x # y # ys) = x @ sep @ join sep (y # ys)"

text \<open>
  A JavaScript \<open>Set\<close> (and the keys of a \<open>Map\<close>) iterates in insertion order and holds
  every member once: a list without repetition.  \<open>Array.prototype.indexOf\<close> is the first
  position of a member, \<open>-1\<close> when it is absent, and an array read beyond the end is
  \<open>undefined\<close>.
\<close>

definition set_add :: "'a \<Rightarrow> 'a list \<Rightarrow> 'a list" where
  "set_add x xs = (if x \<in> set xs then xs else xs @ [x])"

definition set_delete :: "'a \<Rightarrow> 'a list \<Rightarrow> 'a list" where
  "set_delete x xs = removeAll x xs"

fun indexOf :: "'a list \<Rightarrow> 'a \<Rightarrow> int" where
  "indexOf [] x = - 1"
| "indexOf (y # ys) x =
     (if y = x then 0 else (let i = indexOf ys x in if i < 0 then - 1 else i + 1))"

definition at_index :: "'a list \<Rightarrow> int \<Rightarrow> 'a option" where
  "at_index xs i = (if 0 \<le> i \<and> nat i < length xs then Some (xs ! nat i) else None)"

section \<open>The host platform\<close>

text \<open>
  Everything the code reads from the browser is a field of the record \<open>platform\<close>: whether
  \<open>window\<close> and \<open>document\<close> exist (\<open>isSSR\<close>), which capabilities are present, what
  \<open>navigator.permissions.query\<close> answers for a permission name (\<open>None\<close> when the query
  rejects), the inputs of the passive-mode heuristics, the battery (level, charging) when
  \<open>navigator.getBattery\<close> exists, and the sample that \<open>collectMetrics\<close> measures.  These
  are parameters of the model; the repository does not define them.
\<close>

record PerformanceMetrics =
  cpuUsage :: rat
  memoryUsage :: rat
  batteryDrain :: rat
  timestamp :: rat

record platform =
  ssr :: bool
  wakeLockApi :: bool
  videoCapable :: bool
  audioCapable :: bool
  permissionsApi :: bool
  permission_query :: "string \<Rightarrow> PermissionState option"
  in_iframe :: bool
  doc_hidden :: bool
  has_focus :: bool
  mobile :: bool
  heuristics_throw :: bool
  battery :: "(rat \<times> bool) option"
  metrics_sample :: PerformanceMetrics

definition isSSR :: "platform \<Rightarrow> bool" where
  "isSSR p = ssr p"

definition isWakeLockSupported :: "platform \<Rightarrow> bool" where
  "isWakeLockSupported p = (if isSSR p then False else wakeLockApi p)"

definition isPermissionsSupported :: "platform \<Rightarrow> bool" where
  "isPermissionsSupported p = (if isSSR p then False else permissionsApi p)"

text \<open>helpers.ts \<open>checkPermission\<close>: the query's state, \<open>null\<close> when it throws.\<close>

definition checkPermission :: "platform \<Rightarrow> string \<Rightarrow> PermissionState option" where
  "checkPermission p name =
     (if isPermissionsSupported p then permission_query p name else None)"

section \<open>PermissionManager\<close>

text \<open>
  The two private maps of the class, keyed by the cache key.  \<open>Date.now()\<close> is an
  argument: \<open>now\<close> is the reading taken by \<open>getCachedPermission\<close>, \<open>now'\<close> the later one
  taken by \<open>setCachedPermission\<close>.
\<close>

record PermissionManager =
  permissionCache :: "string \<rightharpoonup> PermissionState"
  cacheTimestamps :: "string \<rightharpoonup> int"

definition cacheExpiryTime :: int where
  "cacheExpiryTime = 5 * 60 * 1000"

definition cacheKey :: "WakeLockType \<Rightarrow> string" where
  "cacheKey ty = ''wake-lock-'' @ type_name ty"

definition cache_delete :: "string \<Rightarrow> PermissionManager \<Rightarrow> PermissionManager" where
  "cache_delete key pm =
     pm\<lparr>permissionCache := (permissionCache pm)(key := None),
        cacheTimestamps := (cacheTimestamps pm)(key := None)\<rparr>"

text \<open>
  \<open>!timestamp\<close> holds for a missing timestamp and for the timestamp \<open>0\<close>.
\<close>

definition getCachedPermission ::
  "string \<Rightarrow> int \<Rightarrow> PermissionManager \<Rightarrow> PermissionState option \<times> PermissionManager" where
  "getCachedPermission key now pm =
     (case cacheTimestamps pm key of
        None \<Rightarrow> (None, cache_delete key pm)
      | Some ts \<Rightarrow>
          if ts = 0 \<or> now - ts > cacheExpiryTime then (None, cache_delete key pm)
          else (permissionCache pm key, pm))"

definition setCachedPermission ::
  "string \<Rightarrow> PermissionState \<Rightarrow> int \<Rightarrow> PermissionManager \<Rightarrow> PermissionManager" where
  "setCachedPermission key permission now' pm =
     pm\<lparr>permissionCache := (permissionCache pm)(key \<mapsto> permission),
        cacheTimestamps := (cacheTimestamps pm)(key \<mapsto> now')\<rparr>"

text \<open>
  \<open>checkSpecificPermission\<close> swallows every failure of the query, so the \<open>catch\<close> blocks
  of \<open>checkWakeLockPermission\<close> and \<open>canRequestWithoutPrompt\<close> have nothing to catch.
\<close>

definition checkSpecificPermission :: "platform \<Rightarrow> string \<Rightarrow> PermissionState option" where
  "checkSpecificPermission p name =
     (if isPermissionsSupported p then checkPermission p name else None)"

definition checkWakeLockPermission ::
  "platform \<Rightarrow> WakeLockType \<Rightarrow> bool \<Rightarrow> int \<Rightarrow> int \<Rightarrow> PermissionManager
     \<Rightarrow> PermissionState option \<times> PermissionManager" where
  "checkWakeLockPermission p ty passive now now' pm =
     (if isSSR p then (None, pm)
      else
        (case getCachedPermission (cacheKey ty) now pm of
           (Some cached, pm1) \<Rightarrow> (Some cached, pm1)
         | (None, pm1) \<Rightarrow>
             (case checkSpecificPermission p ''wake-lock'' of
                Some wakeLockPermission \<Rightarrow>
                  (Some wakeLockPermission,
                   setCachedPermission (cacheKey ty) wakeLockPermission now' pm1)
              | None \<Rightarrow>
                  (case (if ty = Screen then checkSpecificPermission p ''screen-wake-lock''
                         else None) of
                     Some screenPermission \<Rightarrow>
                       (Some screenPermission,
                        setCachedPermission (cacheKey ty) screenPermission now' pm1)
                   | None \<Rightarrow>
                       if passive
                       then (Some granted, setCachedPermission (cacheKey ty) granted now' pm1)
                       else (None, pm1)))))"

definition canRequestWithoutPrompt ::
  "platform \<Rightarrow> WakeLockType \<Rightarrow> int \<Rightarrow> int \<Rightarrow> PermissionManager
     \<Rightarrow> bool \<times> PermissionManager" where
  "canRequestWithoutPrompt p ty now now' pm =
     (if isSSR p then (False, pm)
      else
        (case checkWakeLockPermission p ty True now now' pm of
           (permission, pm1) \<Rightarrow>
             if permission = Some granted \<or> permission = Some denied then (True, pm1)
             else (False, pm1)))"

text \<open>
  \<open>hasRecentUserInteraction\<close> is \<open>document.hasFocus() && Date.now() - getLastUserActivity()
  < 30000\<close> with \<open>getLastUserActivity() = Date.now() - 1000\<close>: the second conjunct compares
  one second with thirty.
\<close>

definition hasRecentUserInteraction :: "platform \<Rightarrow> bool" where
  "hasRecentUserInteraction p = (has_focus p \<and> (1000 :: int) < 30000)"

definition isPassiveModeRecommended :: "platform \<Rightarrow> bool" where
  "isPassiveModeRecommended p =
     (if isSSR p then True
      else if heuristics_throw p then True
      else if in_iframe p then True
      else if doc_hidden p then True
      else if hasRecentUserInteraction p then (if mobile p then True else False)
      else True)"


section \<open>Sentinels, native lock handles and strategies\<close>

text \<open>
  Objects live in stores indexed by a reference: \<open>sentinels\<close> for the sentinel objects the
  strategies create, \<open>natives\<close> for the platform's own lock handles, \<open>strats\<close> for the
  strategy objects.  A fresh reference is the store's counter, which stands for object
  identity and for \<open>generateUniqueId()\<close>, taken to return a new id on every call.

  A release listener is either the closure \<open>onRelease\<close> that
  \<open>WakeLock.setupSentinelListeners\<close> builds for a sentinel, or a caller's callback,
  identified by a number, that may throw.  Calling a caller's callback is recorded in
  \<open>notified\<close>.
\<close>

datatype listener = OnRelease nat | Subscriber nat bool

text \<open>
  What the platform hands back for one acquisition: whether tearing the resource down
  later throws (for a native handle: whether its \<open>release()\<close> rejects), and whether a native
  handle dispatches its \<open>release\<close> event when it is released.
\<close>

record resource =
  release_error :: "js_error option"
  fires_release :: bool

datatype native_listener = Hook nat | Forward listener

record native_sentinel =
  n_type :: WakeLockType
  n_released :: bool
  n_listeners :: "native_listener list"
  n_resource :: resource

datatype strategy_kind =
  ScreenWakeLockStrategy | VideoElementStrategy | AudioContextStrategy | TimerStrategy

record sentinel =
  s_type :: WakeLockType
  s_released :: bool
  s_releaseListeners :: "listener list"
  s_strategy :: nat
  s_native :: "nat option"
  s_resource :: resource

text \<open>
  A strategy object: its class, the keys of its active collection (\<open>activeSentinels\<close>,
  \<open>activeElements\<close>, \<open>activeContexts\<close>, \<open>activeTimers\<close>) in insertion order, and the
  platform's answer to its \<open>n\<close>-th acquisition, the race against the timeout and the abort
  signal included.
\<close>

record strategy =
  kind :: strategy_kind
  active :: "nat list"
  acquire :: "nat \<Rightarrow> js_error + resource"
  attempts :: nat

fun strategy_name :: "strategy_kind \<Rightarrow> string" where
  "strategy_name ScreenWakeLockStrategy = ''screen-wake-lock''"
| "strategy_name VideoElementStrategy = ''video-element''"
| "strategy_name AudioContextStrategy = ''audio-context''"
| "strategy_name TimerStrategy = ''timer''"

fun priority :: "strategy_kind \<Rightarrow> int" where
  "priority ScreenWakeLockStrategy = 1"
| "priority VideoElementStrategy = 2"
| "priority AudioContextStrategy = 3"
| "priority TimerStrategy = 4"

fun strategy_isSupported :: "platform \<Rightarrow> strategy_kind \<Rightarrow> bool" where
  "strategy_isSupported p ScreenWakeLockStrategy =
     (if isSSR p then False else isWakeLockSupported p)"
| "strategy_isSupported p VideoElementStrategy = (if isSSR p then False else videoCapable p)"
| "strategy_isSupported p AudioContextStrategy = (if isSSR p then False else audioCapable p)"
| "strategy_isSupported p TimerStrategy = (if isSSR p then False else True)"

datatype event =
  Enabled WakeLockType string
  | Disabled WakeLockType string
  | ErrorEvent js_error
  | Performance PerformanceMetrics
  | Fallback string string string
  | BatteryChange rat bool
  | VisibilityChange bool string

record PerformanceMonitor =
  mon_enabled :: bool
  isMonitoring :: bool
  mon_battery :: "(rat \<times> bool) option"
  lastMetrics :: "PerformanceMetrics option"
  inThrottle :: bool

section \<open>The state\<close>

text \<open>
  One record holds the platform, the three stores, the fields of the \<open>WakeLock\<close> instance
  and what can be observed from outside: the notifications the instance emitted, the
  callbacks invoked, the \<open>console.warn\<close> and \<open>console.error\<close> lines of the failure
  handlers, and every invocation of a strategy's \<open>request\<close> with its outcome.  Asynchronous
  functions run to completion in the order they are invoked.
\<close>

record world =
  host :: platform
  clock :: int
  sentinels :: "nat \<Rightarrow> sentinel"
  next_sentinel :: nat
  natives :: "nat \<Rightarrow> native_sentinel"
  next_native :: nat
  strats :: "nat \<Rightarrow> strategy"
  strategies :: "nat list"
  opt_batteryOptimization :: bool
  opt_performanceMonitoring :: bool
  opt_passive :: bool
  activeSentinel :: "nat option"
  currentStrategy :: "nat option"
  isReleasing :: bool
  permissionManager :: PermissionManager
  performanceMonitor :: PerformanceMonitor
  emitted :: "event list"
  notified :: "nat list"
  console :: "string list"
  calls :: "(nat \<times> WakeLockType \<times> (js_error + nat)) list"

definition emit :: "event \<Rightarrow> world \<Rightarrow> world" where
  "emit e w = w\<lparr>emitted := emitted w @ [e]\<rparr>"

definition console_log :: "string \<Rightarrow> world \<Rightarrow> world" where
  "console_log line w = w\<lparr>console := console w @ [line]\<rparr>"

definition update_sentinel :: "nat \<Rightarrow> (sentinel \<Rightarrow> sentinel) \<Rightarrow> world \<Rightarrow> world" where
  "update_sentinel sid f w = w\<lparr>sentinels := (sentinels w)(sid := f (sentinels w sid))\<rparr>"

definition update_native ::
  "nat \<Rightarrow> (native_sentinel \<Rightarrow> native_sentinel) \<Rightarrow> world \<Rightarrow> world" where
  "update_native nid f w = w\<lparr>natives := (natives w)(nid := f (natives w nid))\<rparr>"

definition update_strategy :: "nat \<Rightarrow> (strategy \<Rightarrow> strategy) \<Rightarrow> world \<Rightarrow> world" where
  "update_strategy k f w = w\<lparr>strats := (strats w)(k := f (strats w k))\<rparr>"

text \<open>The getter \<open>released\<close>: \<open>_released\<close>, or for a wrapped native handle also its own flag.\<close>

definition sentinel_released :: "world \<Rightarrow> nat \<Rightarrow> bool" where
  "sentinel_released w sid =
     (if s_released (sentinels w sid) then True
      else (case s_native (sentinels w sid) of
              None \<Rightarrow> False
            | Some nid \<Rightarrow> n_released (natives w nid)))"

subsection \<open>PerformanceMonitor.stop\<close>

definition monitor_stop :: "world \<Rightarrow> world" where
  "monitor_stop w =
     (if isMonitoring (performanceMonitor w)
      then w\<lparr>performanceMonitor := (performanceMonitor w)\<lparr>isMonitoring := False\<rparr>\<rparr>
      else w)"

subsection \<open>Release listeners\<close>

text \<open>
  \<open>onRelease\<close> (WakeLock.setupSentinelListeners): when the sentinel is still the active
  one, emit \<open>disabled\<close> with reason \<open>automatic-release\<close>, clear both slots and stop the
  monitor.  A caller's callback is invoked inside \<open>try\<close>/\<open>catch\<close>; what it throws is
  logged with \<open>console.error\<close>.
\<close>

fun call_listener :: "listener \<Rightarrow> world \<Rightarrow> world" where
  "call_listener (OnRelease sid) w =
     (if activeSentinel w = Some sid
      then monitor_stop
             ((emit (Disabled (s_type (sentinels w sid)) ''automatic-release'') w)
                \<lparr>activeSentinel := None, currentStrategy := None\<rparr>)
      else w)"
| "call_listener (Subscriber n throws) w =
     (let w1 = w\<lparr>notified := notified w @ [n]\<rparr>
      in if throws then console_log ''Error in release listener:'' w1 else w1)"

definition notify :: "listener list \<Rightarrow> world \<Rightarrow> world" where
  "notify ls w = fold call_listener ls w"


subsection \<open>The platform's lock handle\<close>

text \<open>
  The listener that \<open>createWrappedSentinel\<close> installs on the native handle (\<open>Hook\<close>) marks
  the wrapper released and removes it from \<open>activeSentinels\<close>; a listener forwarded by the
  wrapper's \<open>addEventListener\<close> is called as it is.
\<close>

fun call_native_listener :: "native_listener \<Rightarrow> world \<Rightarrow> world" where
  "call_native_listener (Hook sid) w =
     (if s_released (sentinels w sid) then w
      else update_strategy (s_strategy (sentinels w sid))
             (\<lambda>st. st\<lparr>active := set_delete sid (active st)\<rparr>)
             (update_sentinel sid (\<lambda>s. s\<lparr>s_released := True\<rparr>) w))"
| "call_native_listener (Forward l) w = call_listener l w"

definition dispatch_release :: "nat \<Rightarrow> world \<Rightarrow> world" where
  "dispatch_release nid w = fold call_native_listener (n_listeners (natives w nid)) w"

text \<open>
  \<open>nativeSentinel.release()\<close> belongs to the platform.  Here a released handle resolves at
  once; otherwise the call rejects with the handle's \<open>release_error\<close> when it has one, and
  else marks the handle released and, when the handle \<open>fires_release\<close>, dispatches its
  \<open>release\<close> event to the listeners registered on it.
\<close>

definition native_release :: "nat \<Rightarrow> world \<Rightarrow> js_error option \<times> world" where
  "native_release nid w =
     (if n_released (natives w nid) then (None, w)
      else (case release_error (n_resource (natives w nid)) of
              Some e \<Rightarrow> (Some e, w)
            | None \<Rightarrow>
                (let w1 = update_native nid (\<lambda>n. n\<lparr>n_released := True\<rparr>) w
                 in (None, if fires_release (n_resource (natives w nid))
                           then dispatch_release nid w1 else w1))))"

text \<open>The platform revokes a handle from outside (the tab goes to the background).\<close>

definition platform_revoke :: "nat \<Rightarrow> world \<Rightarrow> world" where
  "platform_revoke nid w =
     (if n_released (natives w nid) then w
      else dispatch_release nid (update_native nid (\<lambda>n. n\<lparr>n_released := True\<rparr>) w))"

subsection \<open>Releasing one sentinel\<close>

text \<open>
  The \<open>finally\<close> block shared by the four release paths: set \<open>_released\<close>, drop the sentinel
  from its strategy's collection, call every release listener, clear the listener set.
\<close>

definition finish_release :: "nat \<Rightarrow> world \<Rightarrow> world" where
  "finish_release sid w =
     (let w1 = update_sentinel sid (\<lambda>s. s\<lparr>s_released := True\<rparr>) w;
          w2 = update_strategy (s_strategy (sentinels w sid))
                 (\<lambda>st. st\<lparr>active := set_delete sid (active st)\<rparr>) w1;
          w3 = notify (s_releaseListeners (sentinels w2 sid)) w2
      in update_sentinel sid (\<lambda>s. s\<lparr>s_releaseListeners := []\<rparr>) w3)"

fun cleanup_warning :: "strategy_kind \<Rightarrow> string" where
  "cleanup_warning TimerStrategy = ''Error cleaning up timer:''"
| "cleanup_warning VideoElementStrategy = ''Error cleaning up video element:''"
| "cleanup_warning AudioContextStrategy = ''Error cleaning up audio context:''"
| "cleanup_warning ScreenWakeLockStrategy = []"

text \<open>
  \<open>releaseSentinel\<close> of TimerStrategy, VideoElementStrategy and AudioContextStrategy: the
  teardown runs inside \<open>try\<close>, its failure is logged by \<open>catch\<close>, and \<open>finally\<close> does the
  rest.  The function never rejects.
\<close>

definition releaseSentinel :: "nat \<Rightarrow> world \<Rightarrow> world" where
  "releaseSentinel sid w =
     (if s_released (sentinels w sid) then w
      else
        (let w1 = (case release_error (s_resource (sentinels w sid)) of
                     Some e \<Rightarrow>
                       console_log
                         (cleanup_warning (kind (strats w (s_strategy (sentinels w sid))))) w
                   | None \<Rightarrow> w)
         in finish_release sid w1))"

text \<open>
  \<open>sentinel.release()\<close>.  A wrapped native handle awaits the handle's \<open>release()\<close> inside
  \<open>try\<close>/\<open>finally\<close>, so a rejection passes to the caller after the \<open>finally\<close> block ran.
  The other three look the sentinel up in the strategy's map and call \<open>releaseSentinel\<close>
  when it is there.
\<close>

definition sentinel_release :: "nat \<Rightarrow> world \<Rightarrow> js_error option \<times> world" where
  "sentinel_release sid w =
     (if s_released (sentinels w sid) then (None, w)
      else
        (case s_native (sentinels w sid) of
           Some nid \<Rightarrow>
             (case native_release nid w of (r, w1) \<Rightarrow> (r, finish_release sid w1))
         | None \<Rightarrow>
             if sid \<in> set (active (strats w (s_strategy (sentinels w sid))))
             then (None, releaseSentinel sid w)
             else (None, w)))"

definition sentinel_addEventListener :: "nat \<Rightarrow> listener \<Rightarrow> world \<Rightarrow> world" where
  "sentinel_addEventListener sid l w =
     (let w1 = update_sentinel sid
                 (\<lambda>s. s\<lparr>s_releaseListeners := set_add l (s_releaseListeners s)\<rparr>) w
      in (case s_native (sentinels w sid) of
            None \<Rightarrow> w1
          | Some nid \<Rightarrow>
              update_native nid (\<lambda>n. n\<lparr>n_listeners := set_add (Forward l) (n_listeners n)\<rparr>) w1))"

definition sentinel_removeEventListener :: "nat \<Rightarrow> listener \<Rightarrow> world \<Rightarrow> world" where
  "sentinel_removeEventListener sid l w =
     (let w1 = update_sentinel sid
                 (\<lambda>s. s\<lparr>s_releaseListeners := set_delete l (s_releaseListeners s)\<rparr>) w
      in (case s_native (sentinels w sid) of
            None \<Rightarrow> w1
          | Some nid \<Rightarrow>
              update_native nid
                (\<lambda>n. n\<lparr>n_listeners := set_delete (Forward l) (n_listeners n)\<rparr>) w1))"

subsection \<open>Strategy-level release\<close>

text \<open>
  \<open>release()\<close> of a strategy maps over a snapshot of its collection, swallows what one
  release rejects with (\<open>.catch\<close> logs it), awaits \<open>Promise.allSettled\<close> and clears the
  collection.
\<close>

definition release_one :: "nat \<Rightarrow> nat \<Rightarrow> world \<Rightarrow> world" where
  "release_one k sid w =
     (case kind (strats w k) of
        ScreenWakeLockStrategy \<Rightarrow>
          (case sentinel_release sid w of
             (None, w1) \<Rightarrow> w1
           | (Some e, w1) \<Rightarrow> console_log ''Failed to release wake lock sentinel:'' w1)
      | VideoElementStrategy \<Rightarrow> releaseSentinel sid w
      | AudioContextStrategy \<Rightarrow> releaseSentinel sid w
      | TimerStrategy \<Rightarrow> releaseSentinel sid w)"

definition strategy_release :: "nat \<Rightarrow> world \<Rightarrow> world" where
  "strategy_release k w =
     update_strategy k (\<lambda>st. st\<lparr>active := []\<rparr>)
       (fold (release_one k) (active (strats w k)) w)"


subsection \<open>Strategy-level request\<close>

definition platform_acquire :: "nat \<Rightarrow> world \<Rightarrow> (js_error + resource) \<times> world" where
  "platform_acquire k w =
     (acquire (strats w k) (attempts (strats w k)),
      update_strategy k (\<lambda>st. st\<lparr>attempts := Suc (attempts st)\<rparr>) w)"

text \<open>A new sentinel object: \<open>_released\<close> false, no listeners.\<close>

definition new_sentinel ::
  "WakeLockType \<Rightarrow> nat \<Rightarrow> nat option \<Rightarrow> resource \<Rightarrow> world \<Rightarrow> nat \<times> world" where
  "new_sentinel ty k native res w =
     (next_sentinel w,
      w\<lparr>sentinels := (sentinels w)(next_sentinel w :=
            \<lparr>s_type = ty, s_released = False, s_releaseListeners = [], s_strategy = k,
             s_native = native, s_resource = res\<rparr>),
        next_sentinel := Suc (next_sentinel w)\<rparr>)"

definition track :: "nat \<Rightarrow> nat \<Rightarrow> world \<Rightarrow> world" where
  "track k sid w = update_strategy k (\<lambda>st. st\<lparr>active := set_add sid (active st)\<rparr>) w"

definition is_Error :: "js_error \<Rightarrow> bool" where
  "is_Error e = (e \<noteq> NonError)"

definition timeout_or :: "WakeLockErrorCode \<Rightarrow> js_error \<Rightarrow> WakeLockErrorCode" where
  "timeout_or dflt e =
     (if is_Error e \<and> str_includes (message_or [] e) ''timeout'' then TIMEOUT else dflt)"

definition ScreenWakeLockStrategy_request ::
  "nat \<Rightarrow> WakeLockType \<Rightarrow> world \<Rightarrow> (js_error + nat) \<times> world" where
  "ScreenWakeLockStrategy_request k ty w =
     (if strategy_isSupported (host w) ScreenWakeLockStrategy then
        (if ty = System then
           (Inl (WakeLockError
                   ''System wake locks are not yet supported by the Screen Wake Lock API''
                   NOT_SUPPORTED (Some (strategy_name ScreenWakeLockStrategy))), w)
         else
           (case platform_acquire k w of
              (Inr res, w1) \<Rightarrow>
                (let nid = next_native w1;
                     w2 = w1\<lparr>natives := (natives w1)(nid :=
                                 \<lparr>n_type = ty, n_released = False, n_listeners = [],
                                  n_resource = res\<rparr>),
                             next_native := Suc nid\<rparr>
                 in (case new_sentinel (n_type (natives w2 nid)) k (Some nid) res w2 of
                       (sid, w3) \<Rightarrow>
                         (Inr sid,
                          track k sid
                            (update_native nid
                               (\<lambda>n. n\<lparr>n_listeners := set_add (Hook sid) (n_listeners n)\<rparr>)
                               w3))))
            | (Inl e, w1) \<Rightarrow>
                (if is_Error e then
                   (Inl (WakeLockError
                           (''Screen Wake Lock request failed: '' @ message_or [] e)
                           (if error_name e = ''NotAllowedError'' then PERMISSION_DENIED
                            else if error_name e = ''NotSupportedError'' then NOT_SUPPORTED
                            else if error_name e = ''AbortError'' then TIMEOUT
                            else timeout_or UNKNOWN e)
                           (Some (strategy_name ScreenWakeLockStrategy))), w1)
                 else
                   (Inl (WakeLockError
                           ''Unknown error occurred while requesting screen wake lock''
                           UNKNOWN (Some (strategy_name ScreenWakeLockStrategy))), w1))))
      else
        (Inl (WakeLockError ''Screen Wake Lock API is not supported'' NOT_SUPPORTED
                (Some (strategy_name ScreenWakeLockStrategy))), w))"

definition VideoElementStrategy_request ::
  "nat \<Rightarrow> WakeLockType \<Rightarrow> world \<Rightarrow> (js_error + nat) \<times> world" where
  "VideoElementStrategy_request k ty w =
     (if strategy_isSupported (host w) VideoElementStrategy then
        (if ty = System then
           (Inl (WakeLockError
                   ''System wake locks are not supported by video element strategy''
                   NOT_SUPPORTED (Some (strategy_name VideoElementStrategy))), w)
         else
           (case platform_acquire k w of
              (Inr res, w1) \<Rightarrow>
                (case new_sentinel ty k None res w1 of
                   (sid, w2) \<Rightarrow> (Inr sid, track k sid w2))
            | (Inl e, w1) \<Rightarrow>
                (Inl (WakeLockError
                        (''Video element wake lock failed: '' @ message_or ''Unknown error'' e)
                        (timeout_or STRATEGY_FAILED e)
                        (Some (strategy_name VideoElementStrategy))), w1)))
      else
        (Inl (WakeLockError ''Video element strategy is not supported'' NOT_SUPPORTED
                (Some (strategy_name VideoElementStrategy))), w))"

definition AudioContextStrategy_request ::
  "nat \<Rightarrow> WakeLockType \<Rightarrow> world \<Rightarrow> (js_error + nat) \<times> world" where
  "AudioContextStrategy_request k ty w =
     (if strategy_isSupported (host w) AudioContextStrategy then
        (if ty = System then
           (Inl (WakeLockError
                   ''System wake locks are not supported by audio context strategy''
                   NOT_SUPPORTED (Some (strategy_name AudioContextStrategy))), w)
         else
           (case platform_acquire k w of
              (Inr res, w1) \<Rightarrow>
                (case new_sentinel ty k None res w1 of
                   (sid, w2) \<Rightarrow> (Inr sid, track k sid w2))
            | (Inl e, w1) \<Rightarrow>
                (Inl (WakeLockError
                        (''Audio context wake lock failed: '' @ message_or ''Unknown error'' e)
                        (timeout_or STRATEGY_FAILED e)
                        (Some (strategy_name AudioContextStrategy))), w1)))
      else
        (Inl (WakeLockError ''Audio context strategy is not supported'' NOT_SUPPORTED
                (Some (strategy_name AudioContextStrategy))), w))"

text \<open>
  TimerStrategy creates the sentinel and enters it into \<open>activeTimers\<close> before the timers
  are set up; when the setup throws, the entry stays.
\<close>

definition TimerStrategy_request ::
  "nat \<Rightarrow> WakeLockType \<Rightarrow> world \<Rightarrow> (js_error + nat) \<times> world" where
  "TimerStrategy_request k ty w =
     (if strategy_isSupported (host w) TimerStrategy then
        (case new_sentinel ty k None \<lparr>release_error = None, fires_release = False\<rparr> w of
           (sid, w1) \<Rightarrow>
             (case platform_acquire k (track k sid w1) of
                (Inr res, w2) \<Rightarrow>
                  (Inr sid, update_sentinel sid (\<lambda>s. s\<lparr>s_resource := res\<rparr>) w2)
              | (Inl e, w2) \<Rightarrow>
                  (Inl (WakeLockError
                          (''Timer strategy failed to start: '' @ message_or ''Unknown error'' e)
                          STRATEGY_FAILED (Some (strategy_name TimerStrategy))), w2)))
      else
        (Inl (WakeLockError ''Timer strategy is not supported in SSR environment''
                NOT_SUPPORTED (Some (strategy_name TimerStrategy))), w))"

text \<open>
  \<open>strategy.request(type, options)\<close>: the method of the object's class.  Each invocation
  made by the orchestrator is recorded in \<open>calls\<close> with its outcome.
\<close>

definition dispatch_request ::
  "nat \<Rightarrow> WakeLockType \<Rightarrow> world \<Rightarrow> (js_error + nat) \<times> world" where
  "dispatch_request k ty w =
     (case kind (strats w k) of
        ScreenWakeLockStrategy \<Rightarrow> ScreenWakeLockStrategy_request k ty w
      | VideoElementStrategy \<Rightarrow> VideoElementStrategy_request k ty w
      | AudioContextStrategy \<Rightarrow> AudioContextStrategy_request k ty w
      | TimerStrategy \<Rightarrow> TimerStrategy_request k ty w)"

definition strategy_request ::
  "nat \<Rightarrow> WakeLockType \<Rightarrow> world \<Rightarrow> (js_error + nat) \<times> world" where
  "strategy_request k ty w =
     (case dispatch_request k ty w of
        (r, w1) \<Rightarrow> (r, w1\<lparr>calls := calls w1 @ [(k, ty, r)]\<rparr>))"

section \<open>WakeLock, the orchestrator\<close>

text \<open>
  A property of an options object is absent, present with the value \<open>undefined\<close>, or
  present with a value: the spread \<open>...options\<close> copies a property that is present, also
  one that holds \<open>undefined\<close>.  Of \<open>RequestOptions\<close> only \<open>passive\<close> is read by the
  orchestrator; \<open>timeout\<close> and \<open>signal\<close> enter the race that \<open>acquire\<close> answers, and
  \<open>retryAttempts\<close> is never read.
\<close>

datatype 'a js_field = Absent | Undefined | Present 'a

record RequestOptions =
  ro_passive :: "bool js_field"

text \<open>
  \<open>{ passive: options.passive ?? this.options.passive, ..., ...options }.passive\<close>, as the
  condition of an \<open>if\<close>.
\<close>

definition merged_passive :: "RequestOptions \<Rightarrow> world \<Rightarrow> bool" where
  "merged_passive options w =
     (case ro_passive options of
        Absent \<Rightarrow> opt_passive w
      | Undefined \<Rightarrow> False
      | Present b \<Rightarrow> b)"

definition as_WakeLockError ::
  "string \<Rightarrow> WakeLockErrorCode \<Rightarrow> string option \<Rightarrow> js_error \<Rightarrow> js_error" where
  "as_WakeLockError dflt c strat e =
     (if is_WakeLockError e then e else WakeLockError (message_or dflt e) c strat)"

subsection \<open>release\<close>

text \<open>
  The \<open>try\<close> block of \<open>WakeLock.release\<close>: await the sentinel's release, then read
  \<open>this.activeSentinel.type\<close> for the \<open>disabled\<close> notification.  Reading a property of
  \<open>null\<close> throws a \<open>TypeError\<close> (the message is the engine's).
\<close>

definition release_try :: "nat \<Rightarrow> world \<Rightarrow> js_error option \<times> world" where
  "release_try sid w =
     (case sentinel_release sid w of
        (Some e, w1) \<Rightarrow> (Some e, w1)
      | (None, w1) \<Rightarrow>
          (case activeSentinel w1 of
             None \<Rightarrow>
               (Some (JsError ''TypeError'' ''Cannot read properties of null (reading type)''),
                w1)
           | Some a \<Rightarrow>
               (None, emit (Disabled (s_type (sentinels w1 a)) ''manual-release'') w1)))"

text \<open>
  \<open>WakeLock.release\<close>; the first component is what the returned promise rejects with.
\<close>

definition release :: "world \<Rightarrow> js_error option \<times> world" where
  "release w =
     (case activeSentinel w of
        None \<Rightarrow> (None, w)
      | Some sid \<Rightarrow>
          if sentinel_released w sid \<or> isReleasing w then (None, w)
          else
            (case release_try sid (w\<lparr>isReleasing := True\<rparr>) of
               (thrown, w1) \<Rightarrow>
                 (let w2 = (case thrown of
                              None \<Rightarrow> w1
                            | Some e \<Rightarrow>
                                emit (ErrorEvent
                                        (as_WakeLockError ''Failed to release wake lock''
                                           UNKNOWN None e)) w1)
                  in (None,
                      monitor_stop
                        (w2\<lparr>activeSentinel := None, currentStrategy := None,
                            isReleasing := False\<rparr>)))))"

subsection \<open>The monitor's notifications and PerformanceMonitor.start\<close>

text \<open>
  The listeners that \<open>initializeEventListeners\<close> puts on the monitor forward its
  notifications; a battery level of at most 0.15 while discharging releases the lock when
  battery optimisation is on.  \<open>handlePerformanceOptimization\<close> only logs.
\<close>

definition on_battery_change :: "rat \<Rightarrow> bool \<Rightarrow> world \<Rightarrow> world" where
  "on_battery_change level charging w =
     (let w1 = emit (BatteryChange level charging) w
      in if opt_batteryOptimization w1 \<and> level \<le> 15 / 100 \<and> \<not> charging
         then snd (release w1) else w1)"

definition on_performance :: "PerformanceMetrics \<Rightarrow> world \<Rightarrow> world" where
  "on_performance metrics w = emit (Performance metrics) w"

definition throttledEmitPerformance :: "PerformanceMetrics \<Rightarrow> world \<Rightarrow> world" where
  "throttledEmitPerformance metrics w =
     (if inThrottle (performanceMonitor w) then w
      else (let w1 = on_performance metrics w
            in w1\<lparr>performanceMonitor := (performanceMonitor w1)\<lparr>inThrottle := True\<rparr>\<rparr>))"

definition monitor_start :: "world \<Rightarrow> world" where
  "monitor_start w =
     (if mon_enabled (performanceMonitor w) then
        (if isMonitoring (performanceMonitor w) \<or> isSSR (host w) then w
         else
           (let w1 = w\<lparr>performanceMonitor :=
                        (performanceMonitor w)\<lparr>isMonitoring := True,
                                                mon_battery := battery (host w)\<rparr>\<rparr>;
                w2 = (case battery (host w) of
                        None \<Rightarrow> w1
                      | Some (level, charging) \<Rightarrow> on_battery_change level charging w1);
                w3 = w2\<lparr>performanceMonitor :=
                         (performanceMonitor w2)\<lparr>lastMetrics :=
                                                   Some (metrics_sample (host w))\<rparr>\<rparr>
            in throttledEmitPerformance (metrics_sample (host w)) w3))
      else w)"

subsection \<open>tryStrategies\<close>

text \<open>
  One pass of the loop body's \<open>try\<close> block: \<open>measureStrategy\<close> runs \<open>strategy.request\<close> and
  drops its sentinel, and when that resolved, \<open>strategy.request\<close> is called again for the
  sentinel that is returned.
\<close>

definition attempt :: "nat \<Rightarrow> WakeLockType \<Rightarrow> world \<Rightarrow> (js_error + nat) \<times> world" where
  "attempt k ty w =
     (case strategy_request k ty w of
        (Inl e, w1) \<Rightarrow> (Inl e, w1)
      | (Inr measured, w1) \<Rightarrow> strategy_request k ty w1)"

definition all_failed :: "js_error list \<Rightarrow> js_error" where
  "all_failed errors =
     WakeLockError
       (''All wake lock strategies failed. Errors: '' @ join '', '' (map (message_or []) errors))
       STRATEGY_FAILED None"

fun tryStrategies_loop ::
  "WakeLockType \<Rightarrow> nat list \<Rightarrow> js_error list \<Rightarrow> world \<Rightarrow> (js_error + nat) \<times> world" where
  "tryStrategies_loop ty [] errors w = (Inl (all_failed errors), w)"
| "tryStrategies_loop ty (k # ks) errors w =
     (case attempt k ty w of
        (Inr sid, w1) \<Rightarrow> (Inr sid, w1\<lparr>currentStrategy := Some k\<rparr>)
      | (Inl e, w1) \<Rightarrow>
          (let wakeLockError =
                 as_WakeLockError ''Strategy failed'' STRATEGY_FAILED
                   (Some (strategy_name (kind (strats w1 k)))) e;
               w2 = (case at_index (strategies w1) (indexOf (strategies w1) k + 1) of
                       Some nextStrategy \<Rightarrow>
                         emit (Fallback (strategy_name (kind (strats w1 k)))
                                 (strategy_name (kind (strats w1 nextStrategy)))
                                 (message_or [] wakeLockError)) w1
                     | None \<Rightarrow> w1)
           in tryStrategies_loop ty ks (errors @ [wakeLockError]) w2))"

definition tryStrategies :: "WakeLockType \<Rightarrow> world \<Rightarrow> (js_error + nat) \<times> world" where
  "tryStrategies ty w = tryStrategies_loop ty (strategies w) [] w"

subsection \<open>request\<close>

definition setupSentinelListeners :: "nat \<Rightarrow> world \<Rightarrow> world" where
  "setupSentinelListeners sid w = sentinel_addEventListener sid (OnRelease sid) w"

definition current_strategy_name :: "world \<Rightarrow> string" where
  "current_strategy_name w =
     (case currentStrategy w of
        None \<Rightarrow> ''unknown''
      | Some k \<Rightarrow> strategy_name (kind (strats w k)))"

text \<open>The passive-mode check at the head of the \<open>try\<close> block.\<close>

definition passive_check ::
  "WakeLockType \<Rightarrow> bool \<Rightarrow> world \<Rightarrow> js_error option \<times> world" where
  "passive_check ty passive w =
     (if passive then
        (case canRequestWithoutPrompt (host w) ty (clock w) (clock w) (permissionManager w) of
           (canRequest, pm1) \<Rightarrow>
             (if canRequest then (None, w\<lparr>permissionManager := pm1\<rparr>)
              else if isPassiveModeRecommended (host w) then
                (Some (WakeLockError
                         ''Wake lock would require user prompt, but passive mode is enabled''
                         PERMISSION_DENIED None),
                 w\<lparr>permissionManager := pm1\<rparr>)
              else (None, w\<lparr>permissionManager := pm1\<rparr>)))
      else (None, w))"

definition request_try ::
  "WakeLockType \<Rightarrow> bool \<Rightarrow> world \<Rightarrow> (js_error + nat) \<times> world" where
  "request_try ty passive w =
     (case passive_check ty passive w of
        (Some e, w1) \<Rightarrow> (Inl e, w1)
      | (None, w1) \<Rightarrow>
          (case tryStrategies ty
                  (if opt_performanceMonitoring w1 then monitor_start w1 else w1) of
             (Inl e, w3) \<Rightarrow> (Inl e, w3)
           | (Inr sid, w3) \<Rightarrow>
               (let w4 = setupSentinelListeners sid (w3\<lparr>activeSentinel := Some sid\<rparr>)
                in (Inr sid, emit (Enabled ty (current_strategy_name w4)) w4))))"

definition active_unreleased :: "world \<Rightarrow> nat option" where
  "active_unreleased w =
     (case activeSentinel w of
        None \<Rightarrow> None
      | Some sid \<Rightarrow> if sentinel_released w sid then None else Some sid)"

definition request ::
  "WakeLockType \<Rightarrow> RequestOptions \<Rightarrow> world \<Rightarrow> (js_error + nat) \<times> world" where
  "request ty options w =
     (if isSSR (host w) then
        (Inl (WakeLockError ''Wake lock is not supported in server-side rendering''
                NOT_SUPPORTED None), w)
      else
        (case active_unreleased w of
           Some sid \<Rightarrow> (Inr sid, w)
         | None \<Rightarrow>
             (case request_try ty (merged_passive options w) w of
                (Inr sid, w1) \<Rightarrow> (Inr sid, w1)
              | (Inl e, w1) \<Rightarrow>
                  (Inl e,
                   emit (ErrorEvent (as_WakeLockError ''Unknown error'' UNKNOWN None e)) w1))))"

definition isSupported :: "world \<Rightarrow> bool" where
  "isSupported w = (if isSSR (host w) then False else 0 < length (strategies w))"

subsection \<open>The constructor\<close>

text \<open>
  \<open>new WakeLock(options)\<close> over given strategy objects: the list is sorted by priority
  (\<open>Array.prototype.sort\<close> is stable) and filtered by \<open>isSupported()\<close>.  The three flags
  default as in the constructor.
\<close>

definition no_resource :: resource where
  "no_resource = \<lparr>release_error = None, fires_release = False\<rparr>"

definition WakeLock_new ::
  "platform \<Rightarrow> int \<Rightarrow> (nat \<Rightarrow> strategy) \<Rightarrow> nat list \<Rightarrow> bool option \<Rightarrow> bool option
     \<Rightarrow> bool option \<Rightarrow> world" where
  "WakeLock_new p now heap ids batteryOptimization performanceMonitoring passive =
     \<lparr>host = p, clock = now,
      sentinels = (\<lambda>i. \<lparr>s_type = Screen, s_released = False, s_releaseListeners = [],
                        s_strategy = 0, s_native = None, s_resource = no_resource\<rparr>),
      next_sentinel = 0,
      natives = (\<lambda>i. \<lparr>n_type = Screen, n_released = False, n_listeners = [],
                      n_resource = no_resource\<rparr>),
      next_native = 0,
      strats = heap,
      strategies = filter (\<lambda>k. strategy_isSupported p (kind (heap k)))
                     (sort_key (\<lambda>k. priority (kind (heap k))) ids),
      opt_batteryOptimization = (case batteryOptimization of None \<Rightarrow> True | Some b \<Rightarrow> b),
      opt_performanceMonitoring = (case performanceMonitoring of None \<Rightarrow> True | Some b \<Rightarrow> b),
      opt_passive = (case passive of None \<Rightarrow> False | Some b \<Rightarrow> b),
      activeSentinel = None, currentStrategy = None, isReleasing = False,
      permissionManager = \<lparr>permissionCache = Map.empty, cacheTimestamps = Map.empty\<rparr>,
      performanceMonitor =
        \<lparr>mon_enabled = (case performanceMonitoring of None \<Rightarrow> True | Some b \<Rightarrow> b),
         isMonitoring = False, mon_battery = None, lastMetrics = None, inThrottle = False\<rparr>,
      emitted = [], notified = [], console = [], calls = []\<rparr>"


section \<open>Example platforms and instances\<close>

text \<open>
  A desktop browser with every capability, whose permission query answers \<open>granted\<close>; and
  the same browser with the page hidden and the permission still to be asked for.
\<close>

definition browser :: platform where
  "browser =
     \<lparr>ssr = False, wakeLockApi = True, videoCapable = True, audioCapable = True,
      permissionsApi = True, permission_query = (\<lambda>name. Some granted), in_iframe = False,
      doc_hidden = False, has_focus = True, mobile = False, heuristics_throw = False,
      battery = Some (8 / 10, False),
      metrics_sample = \<lparr>cpuUsage = 12, memoryUsage = 1024, batteryDrain = 0, timestamp = 5\<rparr>\<rparr>"

definition hidden_browser :: platform where
  "hidden_browser = browser\<lparr>permission_query := (\<lambda>name. Some prompt), doc_hidden := True\<rparr>"

text \<open>Platform answers to an acquisition: it succeeds, or it is refused.\<close>

definition acquired :: "nat \<Rightarrow> js_error + resource" where
  "acquired n = Inr \<lparr>release_error = None, fires_release = True\<rparr>"

definition refused :: "nat \<Rightarrow> js_error + resource" where
  "refused n = Inl (JsError ''NotAllowedError'' ''Permission denied by user'')"

text \<open>
  The four default strategy objects, at references 0 to 3; the native lock is refused, the
  fallbacks succeed.
\<close>

definition default_strategies :: "nat \<Rightarrow> strategy" where
  "default_strategies k =
     \<lparr>kind = (if k = 0 then ScreenWakeLockStrategy
              else if k = 1 then VideoElementStrategy
              else if k = 2 then AudioContextStrategy
              else TimerStrategy),
      active = [], acquire = (if k = 0 then refused else acquired), attempts = 0\<rparr>"

definition no_options :: RequestOptions where
  "no_options = \<lparr>ro_passive = Absent\<rparr>"

definition fresh_instance :: world where
  "fresh_instance = WakeLock_new browser 1000 default_strategies [3, 2, 1, 0] None None None"

definition passive_instance :: world where
  "passive_instance =
     WakeLock_new hidden_browser 1000 default_strategies [0, 1, 2, 3] None None (Some True)"

lemmas prim_defs = emit_def console_log_def update_sentinel_def update_native_def
  update_strategy_def track_def

lemmas platform_defs = browser_def hidden_browser_def acquired_def refused_def
  default_strategies_def no_options_def isSSR_def isWakeLockSupported_def
  isPermissionsSupported_def checkPermission_def checkSpecificPermission_def
  isPassiveModeRecommended_def hasRecentUserInteraction_def

lemmas permission_defs = canRequestWithoutPrompt_def checkWakeLockPermission_def
  getCachedPermission_def setCachedPermission_def cache_delete_def cacheKey_def
  cacheExpiryTime_def

section \<open>The permission cache\<close>

lemma getCached_fresh:
  "cacheTimestamps pm key = Some ts \<Longrightarrow> ts \<noteq> 0 \<Longrightarrow> now - ts \<le> 5 * 60 * 1000 \<Longrightarrow>
   getCachedPermission key now pm = (permissionCache pm key, pm)"
  by (simp add: getCachedPermission_def cacheExpiryTime_def)

lemma getCached_expired:
  "cacheTimestamps pm key = Some ts \<Longrightarrow> now - ts > 5 * 60 * 1000 \<Longrightarrow>
   getCachedPermission key now pm = (None, cache_delete key pm)"
  by (simp add: getCachedPermission_def cacheExpiryTime_def)

lemma getCached_absent:
  "cacheTimestamps pm key = None \<Longrightarrow>
   getCachedPermission key now pm = (None, cache_delete key pm)"
  by (simp add: getCachedPermission_def)

lemma cache_delete_idem: "cache_delete key (cache_delete key pm) = cache_delete key pm"
  by (simp add: cache_delete_def)

text \<open>
  What \<open>checkWakeLockPermission\<close> answers when it has to ask the platform: the state of
  \<open>wake-lock\<close>, else for the screen kind the state of \<open>screen-wake-lock\<close>, else \<open>granted\<close>
  in passive mode and \<open>null\<close> otherwise.
\<close>

definition fresh_permission ::
  "platform \<Rightarrow> WakeLockType \<Rightarrow> bool \<Rightarrow> PermissionState option" where
  "fresh_permission p ty passive =
     (case checkSpecificPermission p ''wake-lock'' of
        Some s \<Rightarrow> Some s
      | None \<Rightarrow>
          (case (if ty = Screen then checkSpecificPermission p ''screen-wake-lock'' else None) of
             Some s \<Rightarrow> Some s
           | None \<Rightarrow> if passive then Some granted else None))"

text \<open>
  Claim C8.  Take a cache entry for the kind's key, stamped \<open>ts\<close>, in a browser.  The cache
  lookup answers only while the entry is at most five minutes old; a live entry (its stamp
  is not the number 0, which \<open>!timestamp\<close> reads as missing) is what
  \<open>checkWakeLockPermission\<close> returns, leaving the cache as it is; an entry older than five
  minutes is deleted from both maps, the call behaves exactly as on the manager without
  the entry, and its answer is the one obtained from the platform.
\<close>

theorem permission_cache_expiry:
  assumes "\<not> isSSR p"
    and "cacheTimestamps pm (cacheKey ty) = Some ts"
    and "permissionCache pm (cacheKey ty) = Some v"
  shows "(fst (getCachedPermission (cacheKey ty) now pm) \<noteq> None \<longrightarrow> now - ts \<le> 5 * 60 * 1000)
    \<and> (ts \<noteq> 0 \<and> now - ts \<le> 5 * 60 * 1000 \<longrightarrow>
          checkWakeLockPermission p ty passive now now' pm = (Some v, pm))
    \<and> (now - ts > 5 * 60 * 1000 \<longrightarrow>
          getCachedPermission (cacheKey ty) now pm = (None, cache_delete (cacheKey ty) pm)
          \<and> permissionCache (cache_delete (cacheKey ty) pm) (cacheKey ty) = None
          \<and> cacheTimestamps (cache_delete (cacheKey ty) pm) (cacheKey ty) = None
          \<and> checkWakeLockPermission p ty passive now now' pm
              = checkWakeLockPermission p ty passive now now' (cache_delete (cacheKey ty) pm)
          \<and> fst (checkWakeLockPermission p ty passive now now' pm)
              = fresh_permission p ty passive)"
proof (intro conjI impI)
  assume "fst (getCachedPermission (cacheKey ty) now pm) \<noteq> None"
  then show "now - ts \<le> 5 * 60 * 1000"
    using assms(2) by (auto simp: getCachedPermission_def cacheExpiryTime_def split: if_splits)
next
  assume "ts \<noteq> 0 \<and> now - ts \<le> 5 * 60 * 1000"
  then have "getCachedPermission (cacheKey ty) now pm = (Some v, pm)"
    using assms(2,3) getCached_fresh[of pm "cacheKey ty" ts now] by simp
  then show "checkWakeLockPermission p ty passive now now' pm = (Some v, pm)"
    using assms(1) by (simp add: checkWakeLockPermission_def)
next
  assume old: "now - ts > 5 * 60 * 1000"
  show g: "getCachedPermission (cacheKey ty) now pm = (None, cache_delete (cacheKey ty) pm)"
    using old assms(2) by (rule getCached_expired[rotated])
  show "permissionCache (cache_delete (cacheKey ty) pm) (cacheKey ty) = None"
    by (simp add: cache_delete_def)
  show t: "cacheTimestamps (cache_delete (cacheKey ty) pm) (cacheKey ty) = None"
    by (simp add: cache_delete_def)
  have g': "getCachedPermission (cacheKey ty) now (cache_delete (cacheKey ty) pm)
              = (None, cache_delete (cacheKey ty) pm)"
    using getCached_absent[OF t] by (simp add: cache_delete_idem)
  show "checkWakeLockPermission p ty passive now now' pm
          = checkWakeLockPermission p ty passive now now' (cache_delete (cacheKey ty) pm)"
    using assms(1) by (simp add: checkWakeLockPermission_def g g')
  show "fst (checkWakeLockPermission p ty passive now now' pm) = fresh_permission p ty passive"
    using assms(1)
    by (simp add: checkWakeLockPermission_def g fresh_permission_def split: option.splits)
qed

text \<open>
  A manager that cached \<open>denied\<close> for the screen kind at time 1000, in a browser whose
  platform now answers \<open>granted\<close>: one minute later the cached \<open>denied\<close> is returned, six
  minutes later the platform's \<open>granted\<close>.
\<close>

definition cached_denied :: PermissionManager where
  "cached_denied =
     setCachedPermission (cacheKey Screen) denied 1000
       \<lparr>permissionCache = Map.empty, cacheTimestamps = Map.empty\<rparr>"

theorem permission_cache_expiry_witness:
  "\<not> isSSR browser
   \<and> cacheTimestamps cached_denied (cacheKey Screen) = Some 1000
   \<and> permissionCache cached_denied (cacheKey Screen) = Some denied
   \<and> checkWakeLockPermission browser Screen False 61000 61000 cached_denied
       = (Some denied, cached_denied)
   \<and> fst (checkWakeLockPermission browser Screen False 361000 361000 cached_denied)
       = Some granted
   \<and> cacheTimestamps (cache_delete (cacheKey Screen) cached_denied) (cacheKey Screen) = None"
proof -
  have h1: "\<not> isSSR browser" by (simp add: platform_defs)
  have h2: "cacheTimestamps cached_denied (cacheKey Screen) = Some 1000"
    by (simp add: cached_denied_def setCachedPermission_def)
  have h3: "permissionCache cached_denied (cacheKey Screen) = Some denied"
    by (simp add: cached_denied_def setCachedPermission_def)
  have f: "fresh_permission browser Screen False = Some granted"
    by (simp add: fresh_permission_def platform_defs)
  have live: "checkWakeLockPermission browser Screen False 61000 61000 cached_denied
                = (Some denied, cached_denied)"
    using permission_cache_expiry[OF h1 h2 h3, of 61000 False 61000] by simp
  have late: "(361000 :: int) - 1000 > 5 * 60 * 1000" by simp
  have expired: "fst (checkWakeLockPermission browser Screen False 361000 361000 cached_denied)
                   = fresh_permission browser Screen False"
    using permission_cache_expiry[OF h1 h2 h3, of 361000 False 361000] late by blast
  have gone: "cacheTimestamps (cache_delete (cacheKey Screen) cached_denied) (cacheKey Screen)
                = None"
    using permission_cache_expiry[OF h1 h2 h3, of 361000 False 361000] late by blast
  show ?thesis
    using h1 h2 h3 live gone by (simp only: expired f simp_thms)
qed

section \<open>Requests while a sentinel is active\<close>

lemma request_active:
  "\<not> isSSR (host w) \<Longrightarrow> activeSentinel w = Some sid \<Longrightarrow> \<not> sentinel_released w sid \<Longrightarrow>
   request ty options w = (Inr sid, w)"
  by (simp add: request_def active_unreleased_def)

section \<open>Frames\<close>

definition keeps_config :: "world \<Rightarrow> world \<Rightarrow> bool" where
  "keeps_config w w' =
     (host w' = host w \<and> clock w' = clock w \<and> strategies w' = strategies w
      \<and> opt_batteryOptimization w' = opt_batteryOptimization w
      \<and> opt_performanceMonitoring w' = opt_performanceMonitoring w
      \<and> opt_passive w' = opt_passive w
      \<and> (\<forall>j. kind (strats w' j) = kind (strats w j)))"

definition keeps_orchestrator :: "world \<Rightarrow> world \<Rightarrow> bool" where
  "keeps_orchestrator w w' =
     (keeps_config w w'
      \<and> activeSentinel w' = activeSentinel w \<and> currentStrategy w' = currentStrategy w
      \<and> isReleasing w' = isReleasing w
      \<and> permissionManager w' = permissionManager w
      \<and> performanceMonitor w' = performanceMonitor w
      \<and> emitted w' = emitted w \<and> notified w' = notified w \<and> console w' = console w)"

definition releases_only :: "world \<Rightarrow> world \<Rightarrow> bool" where
  "releases_only w w' =
     (keeps_config w w'
      \<and> permissionManager w' = permissionManager w
      \<and> next_sentinel w' = next_sentinel w \<and> next_native w' = next_native w
      \<and> calls w' = calls w
      \<and> (activeSentinel w' = activeSentinel w \<or> activeSentinel w' = None)
      \<and> (\<forall>j. acquire (strats w' j) = acquire (strats w j)
              \<and> attempts (strats w' j) = attempts (strats w j)
              \<and> set (active (strats w' j)) \<subseteq> set (active (strats w j)))
      \<and> (\<forall>s. s_type (sentinels w' s) = s_type (sentinels w s)
              \<and> s_strategy (sentinels w' s) = s_strategy (sentinels w s)
              \<and> s_native (sentinels w' s) = s_native (sentinels w s)
              \<and> s_resource (sentinels w' s) = s_resource (sentinels w s)
              \<and> (s_released (sentinels w s) \<longrightarrow> s_released (sentinels w' s)))
      \<and> (\<forall>n. n_type (natives w' n) = n_type (natives w n)
              \<and> n_resource (natives w' n) = n_resource (natives w n)
              \<and> (n_released (natives w n) \<longrightarrow> n_released (natives w' n))))"

lemma keeps_config_refl: "keeps_config w w"
  by (simp add: keeps_config_def)

lemma keeps_config_trans:
  "keeps_config w w1 \<Longrightarrow> keeps_config w1 w2 \<Longrightarrow> keeps_config w w2"
  by (simp add: keeps_config_def)

lemma keeps_orchestrator_refl: "keeps_orchestrator w w"
  by (simp add: keeps_orchestrator_def keeps_config_def)

lemma keeps_orchestrator_trans:
  "keeps_orchestrator w w1 \<Longrightarrow> keeps_orchestrator w1 w2 \<Longrightarrow> keeps_orchestrator w w2"
  by (simp add: keeps_orchestrator_def keeps_config_def)

lemma releases_only_refl: "releases_only w w"
  by (simp add: releases_only_def keeps_config_def)

lemma releases_only_trans:
  assumes "releases_only w w1" and "releases_only w1 w2"
  shows "releases_only w w2"
  unfolding releases_only_def
proof (intro conjI allI)
  show "keeps_config w w2"
    using assms keeps_config_trans by (auto simp: releases_only_def)
  show "activeSentinel w2 = activeSentinel w \<or> activeSentinel w2 = None"
    using assms by (auto simp: releases_only_def)
qed (use assms in \<open>auto simp: releases_only_def\<close>)

lemma set_delete_subset: "set (set_delete x xs) \<subseteq> set xs"
  by (auto simp: set_delete_def)

lemma monitor_stop_releases: "releases_only w (monitor_stop w)"
  by (simp add: monitor_stop_def releases_only_def keeps_config_def)

lemma call_listener_releases: "releases_only w (call_listener l w)"
  by (cases l)
    (simp_all add: releases_only_def keeps_config_def monitor_stop_def prim_defs Let_def)

lemma fold_releases:
  assumes "\<And>x v. releases_only v (f x v)"
  shows "releases_only w (fold f xs w)"
proof (induction xs arbitrary: w)
  case Nil
  show ?case by (simp add: releases_only_refl)
next
  case (Cons x xs)
  show ?case using assms[of w x] Cons[of "f x w"] by (simp add: releases_only_trans)
qed

lemma notify_releases: "releases_only w (notify ls w)"
  unfolding notify_def by (rule fold_releases) (rule call_listener_releases)

lemma call_native_listener_releases: "releases_only w (call_native_listener l w)"
proof (cases l)
  case (Hook sid)
  then show ?thesis
    by (simp add: releases_only_def keeps_config_def prim_defs set_delete_subset)
next
  case (Forward x)
  then show ?thesis by (simp add: call_listener_releases)
qed

lemma dispatch_releases: "releases_only w (dispatch_release nid w)"
  unfolding dispatch_release_def by (rule fold_releases) (rule call_native_listener_releases)

lemma mark_native_releases:
  "releases_only w (update_native nid (\<lambda>n. n\<lparr>n_released := True\<rparr>) w)"
  by (simp add: releases_only_def keeps_config_def prim_defs)

lemma native_release_releases: "releases_only w (snd (native_release nid w))"
proof -
  let ?w1 = "update_native nid (\<lambda>n. n\<lparr>n_released := True\<rparr>) w"
  have a: "releases_only w ?w1" by (rule mark_native_releases)
  have b: "releases_only w (dispatch_release nid ?w1)"
    using a dispatch_releases by (rule releases_only_trans)
  show ?thesis
    using a b by (simp add: native_release_def Let_def releases_only_refl split: option.splits)
qed

lemma platform_revoke_releases: "releases_only w (platform_revoke nid w)"
proof -
  let ?w1 = "update_native nid (\<lambda>n. n\<lparr>n_released := True\<rparr>) w"
  have "releases_only w (dispatch_release nid ?w1)"
    using mark_native_releases dispatch_releases by (rule releases_only_trans)
  then show ?thesis by (simp add: platform_revoke_def releases_only_refl)
qed

lemma finish_release_releases: "releases_only w (finish_release sid w)"
proof -
  let ?w1 = "update_sentinel sid (\<lambda>s. s\<lparr>s_released := True\<rparr>) w"
  let ?w2 = "update_strategy (s_strategy (sentinels w sid))
                 (\<lambda>st. st\<lparr>active := set_delete sid (active st)\<rparr>) ?w1"
  let ?w3 = "notify (s_releaseListeners (sentinels ?w2 sid)) ?w2"
  have a: "releases_only w ?w2"
    by (simp add: releases_only_def keeps_config_def prim_defs set_delete_subset)
  have b: "releases_only ?w2 ?w3" by (rule notify_releases)
  have c: "releases_only ?w3 (update_sentinel sid (\<lambda>s. s\<lparr>s_releaseListeners := []\<rparr>) ?w3)"
    by (simp add: releases_only_def keeps_config_def prim_defs)
  show ?thesis
    unfolding finish_release_def Let_def
    using releases_only_trans[OF releases_only_trans[OF a b] c] .
qed

lemma console_log_releases: "releases_only w (console_log line w)"
  by (simp add: releases_only_def keeps_config_def prim_defs)

lemma releaseSentinel_releases: "releases_only w (releaseSentinel sid w)"
proof -
  have "releases_only w (finish_release sid (console_log line w))" for line
    using console_log_releases finish_release_releases by (rule releases_only_trans)
  then show ?thesis
    by (simp add: releaseSentinel_def Let_def releases_only_refl finish_release_releases
        split: option.splits)
qed

lemma sentinel_release_releases: "releases_only w (snd (sentinel_release sid w))"
proof -
  have "releases_only w (finish_release sid (snd (native_release nid w)))" for nid
    using native_release_releases finish_release_releases by (rule releases_only_trans)
  then show ?thesis
    by (simp add: sentinel_release_def releases_only_refl releaseSentinel_releases
        split: option.splits prod.splits) (metis snd_conv)
qed

lemma release_one_releases: "releases_only w (release_one k sid w)"
proof (cases "kind (strats w k)")
  case ScreenWakeLockStrategy
  obtain r w1 where sr: "sentinel_release sid w = (r, w1)" by (cases "sentinel_release sid w")
  have a: "releases_only w w1" using sentinel_release_releases[of w sid] sr by simp
  have b: "releases_only w (console_log line w1)" for line
    using a console_log_releases by (rule releases_only_trans)
  show ?thesis
    using ScreenWakeLockStrategy sr a b by (simp add: release_one_def split: option.splits)
qed (simp_all add: release_one_def releaseSentinel_releases)

lemma strategy_release_releases: "releases_only w (strategy_release k w)"
proof -
  have a: "releases_only w (fold (release_one k) (active (strats w k)) w)"
    by (rule fold_releases) (rule release_one_releases)
  have b: "releases_only v (update_strategy k (\<lambda>st. st\<lparr>active := []\<rparr>) v)" for v
    by (simp add: releases_only_def keeps_config_def prim_defs)
  show ?thesis unfolding strategy_release_def using a b by (rule releases_only_trans)
qed

lemma emit_releases: "releases_only v (emit ev v)"
  by (simp add: releases_only_def keeps_config_def prim_defs)

lemma release_try_releases: "releases_only w (snd (release_try sid w))"
proof -
  obtain r w1 where sr: "sentinel_release sid w = (r, w1)" by (cases "sentinel_release sid w")
  have a: "releases_only w w1" using sentinel_release_releases[of w sid] sr by simp
  have b: "releases_only w (emit ev w1)" for ev
    using a emit_releases by (rule releases_only_trans)
  show ?thesis using sr a b by (simp add: release_try_def split: option.splits)
qed

lemma release_finally_releases:
  "releases_only v
     (monitor_stop (v\<lparr>activeSentinel := None, currentStrategy := None, isReleasing := False\<rparr>))"
  by (simp add: releases_only_def keeps_config_def monitor_stop_def)

lemma release_releases: "releases_only w (snd (release w))"
proof (cases "activeSentinel w")
  case None
  then show ?thesis by (simp add: release_def releases_only_refl)
next
  case (Some sid)
  show ?thesis
  proof (cases "sentinel_released w sid \<or> isReleasing w")
    case True
    then show ?thesis using Some by (simp add: release_def releases_only_refl)
  next
    case False
    let ?w0 = "w\<lparr>isReleasing := True\<rparr>"
    obtain thrown w1 where rt: "release_try sid ?w0 = (thrown, w1)"
      by (cases "release_try sid ?w0")
    have a: "releases_only w ?w0" by (simp add: releases_only_def keeps_config_def)
    have "releases_only ?w0 w1" using release_try_releases[of ?w0 sid] rt by simp
    with a have c: "releases_only w w1" by (rule releases_only_trans)
    have d: "releases_only w (emit ev w1)" for ev
      using c emit_releases by (rule releases_only_trans)
    have e: "releases_only w
               (monitor_stop (v\<lparr>activeSentinel := None, currentStrategy := None,
                               isReleasing := False\<rparr>))" if "releases_only w v" for v
      using that release_finally_releases by (rule releases_only_trans)
    show ?thesis
      using Some False rt e[OF c] e[OF d]
      by (simp add: release_def Let_def split: option.splits)
  qed
qed


section \<open>Strategy-level release releases everything\<close>

lemma releases_only_released:
  "releases_only w w' \<Longrightarrow> s_released (sentinels w s) \<Longrightarrow> s_released (sentinels w' s)"
  by (simp add: releases_only_def)

lemma finish_release_marks: "s_released (sentinels (finish_release sid w) sid)"
proof -
  let ?w2 = "update_strategy (s_strategy (sentinels w sid))
                 (\<lambda>st. st\<lparr>active := set_delete sid (active st)\<rparr>)
                 (update_sentinel sid (\<lambda>s. s\<lparr>s_released := True\<rparr>) w)"
  let ?w3 = "notify (s_releaseListeners (sentinels ?w2 sid)) ?w2"
  have "s_released (sentinels ?w2 sid)" by (simp add: prim_defs)
  then have "s_released (sentinels ?w3 sid)"
    using notify_releases releases_only_released by blast
  then show ?thesis by (simp add: finish_release_def Let_def prim_defs)
qed

lemma releaseSentinel_marks: "s_released (sentinels (releaseSentinel sid w) sid)"
  by (simp add: releaseSentinel_def Let_def finish_release_marks split: option.splits)

lemma sentinel_release_marks:
  "s_native (sentinels w sid) \<noteq> None \<Longrightarrow>
   s_released (sentinels (snd (sentinel_release sid w)) sid)"
  by (auto simp: sentinel_release_def finish_release_marks split: prod.splits)

lemma release_one_marks:
  assumes "kind (strats w k) = ScreenWakeLockStrategy \<longrightarrow> s_native (sentinels w sid) \<noteq> None"
  shows "s_released (sentinels (release_one k sid w) sid)"
proof (cases "kind (strats w k)")
  case ScreenWakeLockStrategy
  then have "s_released (sentinels (snd (sentinel_release sid w)) sid)"
    using assms sentinel_release_marks by simp
  then show ?thesis
    using ScreenWakeLockStrategy
    by (auto simp: release_one_def prim_defs split: prod.splits option.splits)
qed (simp_all add: release_one_def releaseSentinel_marks)

lemma fold_release_one_marks:
  assumes "releases_only w v"
    and "\<forall>sid\<in>set xs. kind (strats w k) = ScreenWakeLockStrategy
            \<longrightarrow> s_native (sentinels w sid) \<noteq> None"
  shows "\<forall>sid\<in>set xs. s_released (sentinels (fold (release_one k) xs v) sid)"
  using assms
proof (induction xs arbitrary: v)
  case Nil
  show ?case by simp
next
  case (Cons x xs)
  let ?v1 = "release_one k x v"
  have kv: "kind (strats v k) = kind (strats w k)"
    and nv: "s_native (sentinels v x) = s_native (sentinels w x)"
    using Cons.prems(1) by (simp_all add: releases_only_def keeps_config_def)
  have x: "s_released (sentinels ?v1 x)"
    using Cons.prems(2) kv nv by (intro release_one_marks) simp
  have step: "releases_only v ?v1" by (rule release_one_releases)
  have rest: "releases_only ?v1 (fold (release_one k) xs ?v1)"
    by (rule fold_releases) (rule release_one_releases)
  have "s_released (sentinels (fold (release_one k) xs ?v1) x)"
    using rest x by (rule releases_only_released)
  moreover have "\<forall>sid\<in>set xs. s_released (sentinels (fold (release_one k) xs ?v1) sid)"
    using Cons.IH[of ?v1] Cons.prems releases_only_trans[OF Cons.prems(1) step] by simp
  ultimately show ?case by simp
qed

section \<open>Strategy-level request: allocation\<close>

lemma dispatch_request_keeps: "keeps_orchestrator w (snd (dispatch_request k ty w))"
  by (cases "kind (strats w k)")
    (simp_all add: dispatch_request_def keeps_orchestrator_def keeps_config_def
      ScreenWakeLockStrategy_request_def VideoElementStrategy_request_def
      AudioContextStrategy_request_def TimerStrategy_request_def platform_acquire_def
      new_sentinel_def prim_defs Let_def split: sum.splits)

lemma strategy_request_keeps: "keeps_orchestrator w (snd (strategy_request k ty w))"
proof (cases "dispatch_request k ty w")
  case (Pair r w1)
  then show ?thesis
    using dispatch_request_keeps[of w k ty]
    by (simp add: strategy_request_def keeps_orchestrator_def keeps_config_def)
qed

definition allocated :: "world \<Rightarrow> nat \<Rightarrow> bool" where
  "allocated w s =
     (s < next_sentinel w
      \<and> (case s_native (sentinels w s) of None \<Rightarrow> True | Some n \<Rightarrow> n < next_native w))"

definition grows :: "world \<Rightarrow> world \<Rightarrow> bool" where
  "grows w w' =
     (next_sentinel w \<le> next_sentinel w' \<and> next_native w \<le> next_native w'
      \<and> (\<forall>s<next_sentinel w. sentinels w' s = sentinels w s)
      \<and> (\<forall>n<next_native w. natives w' n = natives w n)
      \<and> (\<forall>j. set (active (strats w j)) \<subseteq> set (active (strats w' j))))"

lemma grows_refl: "grows w w"
  by (simp add: grows_def)

lemma grows_trans:
  assumes "grows w w1" and "grows w1 w2"
  shows "grows w w2"
  unfolding grows_def
proof (intro conjI allI impI)
  show "next_sentinel w \<le> next_sentinel w2" "next_native w \<le> next_native w2"
    using assms by (auto simp: grows_def)
  show "sentinels w2 s = sentinels w s" if "s < next_sentinel w" for s
  proof -
    have "s < next_sentinel w1" using that assms(1) by (simp add: grows_def)
    then show ?thesis using that assms by (simp add: grows_def)
  qed
  show "natives w2 n = natives w n" if "n < next_native w" for n
  proof -
    have "n < next_native w1" using that assms(1) by (simp add: grows_def)
    then show ?thesis using that assms by (simp add: grows_def)
  qed
  show "set (active (strats w j)) \<subseteq> set (active (strats w2 j))" for j
  proof -
    have "set (active (strats w j)) \<subseteq> set (active (strats w1 j))"
      and "set (active (strats w1 j)) \<subseteq> set (active (strats w2 j))"
      using assms by (simp_all add: grows_def)
    then show ?thesis by (rule subset_trans)
  qed
qed

lemma grows_allocated: "grows w w' \<Longrightarrow> allocated w s \<Longrightarrow> allocated w' s"
  by (auto simp: grows_def allocated_def split: option.splits)

lemma grows_released:
  "grows w w' \<Longrightarrow> allocated w s \<Longrightarrow> sentinel_released w' s = sentinel_released w s"
  by (auto simp: grows_def allocated_def sentinel_released_def split: option.splits)

lemma set_add_member: "x \<in> set (set_add x xs)"
  by (simp add: set_add_def)

lemma set_add_superset: "set xs \<subseteq> set (set_add x xs)"
  by (auto simp: set_add_def)

lemma dispatch_request_grows: "grows w (snd (dispatch_request k ty w))"
  by (cases "kind (strats w k)")
    (auto simp: dispatch_request_def grows_def set_add_def
      ScreenWakeLockStrategy_request_def VideoElementStrategy_request_def
      AudioContextStrategy_request_def TimerStrategy_request_def platform_acquire_def
      new_sentinel_def prim_defs Let_def split: sum.splits)

lemma dispatch_request_calls: "calls (snd (dispatch_request k ty w)) = calls w"
  by (cases "kind (strats w k)")
    (simp_all add: dispatch_request_def
      ScreenWakeLockStrategy_request_def VideoElementStrategy_request_def
      AudioContextStrategy_request_def TimerStrategy_request_def platform_acquire_def
      new_sentinel_def prim_defs Let_def split: sum.splits)

lemma dispatch_request_success:
  assumes "dispatch_request k ty w = (Inr sid, w1)"
  shows "sid = next_sentinel w \<and> allocated w1 sid \<and> sid \<in> set (active (strats w1 k))
         \<and> \<not> sentinel_released w1 sid \<and> s_type (sentinels w1 sid) = ty
         \<and> s_strategy (sentinels w1 sid) = k"
  using assms
  by (cases "kind (strats w k)")
    (auto simp: dispatch_request_def allocated_def sentinel_released_def set_add_def
      ScreenWakeLockStrategy_request_def VideoElementStrategy_request_def
      AudioContextStrategy_request_def TimerStrategy_request_def platform_acquire_def
      new_sentinel_def prim_defs Let_def split: sum.splits if_splits)

section \<open>Independence of the strategies from the orchestrator's fields\<close>

definition with_orch :: "world \<Rightarrow> world \<Rightarrow> world" where
  "with_orch v w =
     w\<lparr>clock := clock v, strategies := strategies v,
       opt_batteryOptimization := opt_batteryOptimization v,
       opt_performanceMonitoring := opt_performanceMonitoring v,
       opt_passive := opt_passive v,
       activeSentinel := activeSentinel v, currentStrategy := currentStrategy v,
       isReleasing := isReleasing v, permissionManager := permissionManager v,
       performanceMonitor := performanceMonitor v,
       emitted := emitted v, notified := notified v, console := console v\<rparr>"

definition same_stores :: "world \<Rightarrow> world \<Rightarrow> bool" where
  "same_stores w v =
     (host v = host w \<and> sentinels v = sentinels w \<and> next_sentinel v = next_sentinel w
      \<and> natives v = natives w \<and> next_native v = next_native w \<and> strats v = strats w
      \<and> calls v = calls w)"

lemma same_stores_with_orch: "same_stores w v \<Longrightarrow> v = with_orch v w"
  by (simp add: same_stores_def with_orch_def)

lemma with_orch_same_stores: "same_stores w (with_orch v w)"
  by (simp add: same_stores_def with_orch_def)

lemma same_stores_refl: "same_stores w w"
  by (simp add: same_stores_def)

lemma same_stores_sym: "same_stores w v \<Longrightarrow> same_stores v w"
  by (simp add: same_stores_def)

lemma same_stores_trans: "same_stores w v \<Longrightarrow> same_stores v u \<Longrightarrow> same_stores w u"
  by (simp add: same_stores_def)

lemma dispatch_with_orch:
  "dispatch_request k ty (with_orch v w)
     = (fst (dispatch_request k ty w), with_orch v (snd (dispatch_request k ty w)))"
  by (cases "kind (strats w k)")
    (simp_all add: dispatch_request_def with_orch_def
      ScreenWakeLockStrategy_request_def VideoElementStrategy_request_def
      AudioContextStrategy_request_def TimerStrategy_request_def platform_acquire_def
      new_sentinel_def prim_defs Let_def split: sum.splits)

lemma strategy_request_with_orch:
  "strategy_request k ty (with_orch v w)
     = (fst (strategy_request k ty w), with_orch v (snd (strategy_request k ty w)))"
  by (simp add: strategy_request_def dispatch_with_orch split: prod.splits)
    (simp add: with_orch_def)

lemma attempt_with_orch:
  "attempt k ty (with_orch v w) = (fst (attempt k ty w), with_orch v (snd (attempt k ty w)))"
  by (simp add: attempt_def strategy_request_with_orch split: prod.splits sum.splits)

lemma attempt_same_stores:
  assumes "same_stores w v" and "attempt k ty w = (r, w1)"
  shows "\<exists>v1. attempt k ty v = (r, v1) \<and> same_stores w1 v1"
proof -
  have "attempt k ty v = (r, with_orch v w1)"
    using assms attempt_with_orch[of k ty v w] same_stores_with_orch[OF assms(1)] by simp
  then show ?thesis using with_orch_same_stores by blast
qed


section \<open>One attempt\<close>

lemma strategy_request_grows: "grows w (snd (strategy_request k ty w))"
proof (cases "dispatch_request k ty w")
  case (Pair r w1)
  then show ?thesis
    using dispatch_request_grows[of w k ty] by (simp add: strategy_request_def grows_def)
qed

lemma strategy_request_calls:
  "strategy_request k ty w = (r, w1) \<Longrightarrow> calls w1 = calls w @ [(k, ty, r)]"
  using dispatch_request_calls[of k ty w]
  by (auto simp: strategy_request_def split: prod.splits)

lemma strategy_request_success:
  assumes "strategy_request k ty w = (Inr sid, w1)"
  shows "sid = next_sentinel w \<and> allocated w1 sid \<and> sid \<in> set (active (strats w1 k))
         \<and> \<not> sentinel_released w1 sid \<and> s_type (sentinels w1 sid) = ty
         \<and> s_strategy (sentinels w1 sid) = k"
proof -
  obtain v where d: "dispatch_request k ty w = (Inr sid, v)"
    and w1: "w1 = v\<lparr>calls := calls v @ [(k, ty, Inr sid)]\<rparr>"
    using assms by (auto simp: strategy_request_def split: prod.splits)
  show ?thesis
    using dispatch_request_success[OF d]
    by (auto simp: w1 allocated_def sentinel_released_def split: option.splits)
qed

lemma attempt_keeps: "keeps_orchestrator w (snd (attempt k ty w))"
proof (cases "strategy_request k ty w")
  case (Pair r w1)
  have a: "keeps_orchestrator w w1" using strategy_request_keeps[of w k ty] Pair by simp
  show ?thesis
  proof (cases r)
    case (Inl e)
    then show ?thesis using Pair a by (simp add: attempt_def)
  next
    case (Inr m)
    have "keeps_orchestrator w (snd (strategy_request k ty w1))"
      using a strategy_request_keeps by (rule keeps_orchestrator_trans)
    then show ?thesis using Pair Inr by (simp add: attempt_def)
  qed
qed

lemma attempt_grows: "grows w (snd (attempt k ty w))"
proof (cases "strategy_request k ty w")
  case (Pair r w1)
  have a: "grows w w1" using strategy_request_grows[of w k ty] Pair by simp
  show ?thesis
  proof (cases r)
    case (Inl e)
    then show ?thesis using Pair a by (simp add: attempt_def)
  next
    case (Inr m)
    have "grows w (snd (strategy_request k ty w1))"
      using a strategy_request_grows by (rule grows_trans)
    then show ?thesis using Pair Inr by (simp add: attempt_def)
  qed
qed

lemma attempt_calls_prefix: "\<exists>cs. calls (snd (attempt k ty w)) = calls w @ cs"
proof (cases "strategy_request k ty w")
  case (Pair r w1)
  note c1 = strategy_request_calls[OF Pair]
  show ?thesis
  proof (cases r)
    case (Inl e)
    then show ?thesis using Pair c1 by (simp add: attempt_def)
  next
    case (Inr m)
    obtain r2 w2 where p2: "strategy_request k ty w1 = (r2, w2)"
      by (cases "strategy_request k ty w1")
    show ?thesis
      using Pair Inr p2 c1 strategy_request_calls[OF p2] by (simp add: attempt_def)
  qed
qed

lemma attempt_success:
  assumes "attempt k ty w = (Inr sid, w2)"
  shows "\<exists>s1. calls w2 = calls w @ [(k, ty, Inr s1), (k, ty, Inr sid)]
           \<and> s1 \<noteq> sid
           \<and> s1 \<in> set (active (strats w2 k)) \<and> sid \<in> set (active (strats w2 k))
           \<and> \<not> sentinel_released w2 s1 \<and> \<not> sentinel_released w2 sid
           \<and> s_type (sentinels w2 sid) = ty"
proof -
  obtain s1 w1 where first: "strategy_request k ty w = (Inr s1, w1)"
    and second: "strategy_request k ty w1 = (Inr sid, w2)"
    using assms by (auto simp: attempt_def split: prod.splits sum.splits)
  note f = strategy_request_success[OF first]
  note g = strategy_request_success[OF second]
  have gr: "grows w1 w2" using strategy_request_grows[of w1 k ty] second by simp
  have "s1 < next_sentinel w1" using f by (auto simp: allocated_def)
  moreover have "sid = next_sentinel w1" using g by blast
  ultimately have ne: "s1 \<noteq> sid" by simp
  have "s1 \<in> set (active (strats w1 k))" using f by blast
  then have a1: "s1 \<in> set (active (strats w2 k))" using gr by (auto simp: grows_def)
  have al: "allocated w1 s1" and nr: "\<not> sentinel_released w1 s1" using f by blast+
  have r1: "\<not> sentinel_released w2 s1" using nr grows_released[OF gr al] by simp
  have c: "calls w2 = calls w @ [(k, ty, Inr s1), (k, ty, Inr sid)]"
    using strategy_request_calls[OF first] strategy_request_calls[OF second] by simp
  show ?thesis using ne a1 r1 c g by blast
qed

section \<open>The loop of tryStrategies\<close>



definition loop_step :: "nat \<Rightarrow> js_error \<Rightarrow> world \<Rightarrow> world" where
  "loop_step k e w1 =
     (case at_index (strategies w1) (indexOf (strategies w1) k + 1) of
        Some nextStrategy \<Rightarrow>
          emit (Fallback (strategy_name (kind (strats w1 k)))
                  (strategy_name (kind (strats w1 nextStrategy)))
                  (message_or []
                     (as_WakeLockError ''Strategy failed'' STRATEGY_FAILED
                        (Some (strategy_name (kind (strats w1 k)))) e))) w1
      | None \<Rightarrow> w1)"

lemma loop_Cons:
  "tryStrategies_loop ty (k # ks) errors w =
     (case attempt k ty w of
        (Inr sid, w1) \<Rightarrow> (Inr sid, w1\<lparr>currentStrategy := Some k\<rparr>)
      | (Inl e, w1) \<Rightarrow>
          tryStrategies_loop ty ks
            (errors @ [as_WakeLockError ''Strategy failed'' STRATEGY_FAILED
                         (Some (strategy_name (kind (strats w1 k)))) e])
            (loop_step k e w1))"
  by (simp add: loop_step_def Let_def split: prod.splits sum.splits)

declare tryStrategies_loop.simps(2) [simp del]

lemma message_as_WakeLockError:
  "message_or d (as_WakeLockError dflt c s e) = message_or dflt e"
  by (cases e) (simp_all add: as_WakeLockError_def)

definition loop_frame :: "world \<Rightarrow> world \<Rightarrow> bool" where
  "loop_frame w w' =
     (keeps_config w w' \<and> grows w w'
      \<and> activeSentinel w' = activeSentinel w \<and> isReleasing w' = isReleasing w
      \<and> permissionManager w' = permissionManager w
      \<and> performanceMonitor w' = performanceMonitor w
      \<and> notified w' = notified w \<and> console w' = console w
      \<and> (\<exists>cs. calls w' = calls w @ cs) \<and> (\<exists>evs. emitted w' = emitted w @ evs))"

lemma loop_frame_refl: "loop_frame w w"
  by (simp add: loop_frame_def keeps_config_refl grows_refl)

lemma loop_frame_trans:
  assumes "loop_frame w w1" and "loop_frame w1 w2"
  shows "loop_frame w w2"
proof -
  have "keeps_config w w2" using assms keeps_config_trans by (auto simp: loop_frame_def)
  moreover have "grows w w2" using assms grows_trans by (auto simp: loop_frame_def)
  moreover have "\<exists>cs. calls w2 = calls w @ cs" using assms by (auto simp: loop_frame_def)
  moreover have "\<exists>evs. emitted w2 = emitted w @ evs" using assms by (auto simp: loop_frame_def)
  ultimately show ?thesis using assms by (simp add: loop_frame_def)
qed

lemma attempt_loop_frame: "loop_frame w (snd (attempt k ty w))"
  using attempt_keeps[of w k ty] attempt_grows[of w k ty] attempt_calls_prefix[of k ty w]
  by (simp add: loop_frame_def keeps_orchestrator_def)

lemma loop_step_frame: "loop_frame w (loop_step k e w)"
  by (simp add: loop_step_def loop_frame_def keeps_config_def grows_def prim_defs
      split: option.splits)

lemma currentStrategy_frame: "loop_frame w (w\<lparr>currentStrategy := c\<rparr>)"
  by (simp add: loop_frame_def keeps_config_def grows_def)

lemma tryStrategies_loop_frame:
  "loop_frame w (snd (tryStrategies_loop ty ks errors w))"
proof (induction ks arbitrary: errors w)
  case Nil
  show ?case by (simp add: loop_frame_refl)
next
  case (Cons k ks)
  obtain r w1 where a: "attempt k ty w = (r, w1)" by (cases "attempt k ty w")
  have f1: "loop_frame w w1" using attempt_loop_frame[of w k ty] a by simp
  show ?case
  proof (cases r)
    case (Inr sid)
    have "loop_frame w (w1\<lparr>currentStrategy := Some k\<rparr>)"
      using f1 currentStrategy_frame by (rule loop_frame_trans)
    then show ?thesis using a Inr by (simp add: loop_Cons)
  next
    case (Inl e)
    have "loop_frame w (loop_step k e w1)"
      using f1 loop_step_frame by (rule loop_frame_trans)
    then have "loop_frame w (snd (tryStrategies_loop ty ks
            (errors @ [as_WakeLockError ''Strategy failed'' STRATEGY_FAILED
                         (Some (strategy_name (kind (strats w1 k)))) e])
            (loop_step k e w1)))"
      using Cons.IH by (rule loop_frame_trans)
    then show ?thesis using a Inl by (simp add: loop_Cons)
  qed
qed

lemma tryStrategies_loop_success:
  assumes "tryStrategies_loop ty ks errors w = (Inr sid, w')"
  shows "\<exists>k v v1. k \<in> set ks \<and> loop_frame w v \<and> attempt k ty v = (Inr sid, v1)
           \<and> w' = v1\<lparr>currentStrategy := Some k\<rparr>"
  using assms
proof (induction ks arbitrary: errors w)
  case Nil
  then show ?case by simp
next
  case (Cons k ks)
  obtain r w1 where a: "attempt k ty w = (r, w1)" by (cases "attempt k ty w")
  show ?case
  proof (cases r)
    case (Inr s)
    then have "s = sid" "w' = w1\<lparr>currentStrategy := Some k\<rparr>"
      using Cons.prems a by (simp_all add: loop_Cons)
    then show ?thesis using a Inr loop_frame_refl[of w] by auto
  next
    case (Inl e)
    let ?w2 = "loop_step k e w1"
    have f: "loop_frame w ?w2"
      using attempt_loop_frame[of w k ty] a loop_step_frame[of w1 k e]
      by (auto intro: loop_frame_trans)
    have "tryStrategies_loop ty ks
            (errors @ [as_WakeLockError ''Strategy failed'' STRATEGY_FAILED
                         (Some (strategy_name (kind (strats w1 k)))) e]) ?w2 = (Inr sid, w')"
      using Cons.prems a Inl by (simp add: loop_Cons)
    from Cons.IH[OF this] obtain k' v v1 where
      "k' \<in> set ks" "loop_frame ?w2 v" "attempt k' ty v = (Inr sid, v1)"
      "w' = v1\<lparr>currentStrategy := Some k'\<rparr>" by blast
    then show ?thesis using loop_frame_trans[OF f] by (metis list.set_intros(2))
  qed
qed

section \<open>request, up to tryStrategies\<close>

fun is_monitor_event :: "event \<Rightarrow> bool" where
  "is_monitor_event (BatteryChange level charging) = True"
| "is_monitor_event (Performance metrics) = True"
| "is_monitor_event ev = False"

lemma release_idle: "active_unreleased w = None \<Longrightarrow> release w = (None, w)"
  by (auto simp: release_def active_unreleased_def split: option.splits if_splits)

lemma passive_check_frame:
  "\<exists>pm. snd (passive_check ty passive w) = w\<lparr>permissionManager := pm\<rparr>"
proof (cases "passive")
  case False
  then show ?thesis
    by (intro exI[of _ "permissionManager w"]) (simp add: passive_check_def)
next
  case True
  then show ?thesis by (auto simp: passive_check_def split: prod.splits)
qed

lemma active_unreleased_cong:
  "activeSentinel v = activeSentinel w \<Longrightarrow> sentinels v = sentinels w \<Longrightarrow>
   natives v = natives w \<Longrightarrow> active_unreleased v = active_unreleased w"
  by (auto simp: active_unreleased_def sentinel_released_def split: option.splits)

lemma on_battery_change_idle:
  assumes "active_unreleased w = None"
  shows "on_battery_change level charging w = emit (BatteryChange level charging) w"
proof -
  have "active_unreleased (emit (BatteryChange level charging) w) = None"
    using assms active_unreleased_cong[of "emit (BatteryChange level charging) w" w]
    by (simp add: emit_def)
  then have "release (emit (BatteryChange level charging) w)
               = (None, emit (BatteryChange level charging) w)"
    by (rule release_idle)
  then show ?thesis by (cases charging) (simp_all add: on_battery_change_def Let_def)
qed

lemma monitor_start_idle:
  assumes "active_unreleased w = None"
  shows "\<exists>pmon evs. monitor_start w
            = w\<lparr>performanceMonitor := pmon, emitted := emitted w @ evs\<rparr>
          \<and> (\<forall>ev\<in>set evs. is_monitor_event ev)"
proof (cases "mon_enabled (performanceMonitor w)
              \<and> \<not> (isMonitoring (performanceMonitor w) \<or> isSSR (host w))")
  case False
  have "monitor_start w = w" using False by (auto simp: monitor_start_def)
  then show ?thesis
    by (intro exI[of _ "performanceMonitor w"] exI[of _ "[]"]) simp
next
  case True
  let ?w1 = "w\<lparr>performanceMonitor :=
                        (performanceMonitor w)\<lparr>isMonitoring := True,
                                                mon_battery := battery (host w)\<rparr>\<rparr>"
  have i1: "active_unreleased ?w1 = None"
    using assms active_unreleased_cong[of ?w1 w] by simp
  show ?thesis
  proof (cases "battery (host w)")
    case None
    show ?thesis
    proof (cases "inThrottle (performanceMonitor w)")
      case True
      then show ?thesis using \<open>mon_enabled _ \<and> _\<close> None
        by (intro exI[of _ "(performanceMonitor w)\<lparr>isMonitoring := True,
              mon_battery := None, lastMetrics := Some (metrics_sample (host w))\<rparr>"]
            exI[of _ "[]"])
          (simp add: monitor_start_def throttledEmitPerformance_def Let_def)
    next
      case False
      then show ?thesis using \<open>mon_enabled _ \<and> _\<close> None
        by (intro exI[of _ "(performanceMonitor w)\<lparr>isMonitoring := True,
              mon_battery := None, lastMetrics := Some (metrics_sample (host w)),
              inThrottle := True\<rparr>"]
            exI[of _ "[Performance (metrics_sample (host w))]"])
          (simp add: monitor_start_def throttledEmitPerformance_def on_performance_def
            emit_def Let_def)
    qed
  next
    case (Some b)
    obtain level charging where b: "b = (level, charging)" by (cases b)
    have ob: "on_battery_change level charging ?w1 = emit (BatteryChange level charging) ?w1"
      using i1 by (rule on_battery_change_idle)
    show ?thesis
    proof (cases "inThrottle (performanceMonitor w)")
      case True
      then show ?thesis using \<open>mon_enabled _ \<and> _\<close> Some b ob
        by (intro exI[of _ "(performanceMonitor w)\<lparr>isMonitoring := True,
              mon_battery := Some (level, charging),
              lastMetrics := Some (metrics_sample (host w))\<rparr>"]
            exI[of _ "[BatteryChange level charging]"])
          (simp add: monitor_start_def throttledEmitPerformance_def Let_def emit_def)
    next
      case False
      then show ?thesis using \<open>mon_enabled _ \<and> _\<close> Some b ob
        by (intro exI[of _ "(performanceMonitor w)\<lparr>isMonitoring := True,
              mon_battery := Some (level, charging),
              lastMetrics := Some (metrics_sample (host w)), inThrottle := True\<rparr>"]
            exI[of _ "[BatteryChange level charging, Performance (metrics_sample (host w))]"])
          (simp add: monitor_start_def throttledEmitPerformance_def on_performance_def
            emit_def Let_def)
    qed
  qed
qed

text \<open>The state in which tryStrategies is entered.\<close>

definition entry :: "WakeLockType \<Rightarrow> RequestOptions \<Rightarrow> world \<Rightarrow> world" where
  "entry ty options w =
     (let w1 = snd (passive_check ty (merged_passive options w) w)
      in if opt_performanceMonitoring w1 then monitor_start w1 else w1)"

lemma entry_shape:
  assumes "active_unreleased w = None"
  shows "\<exists>pm pmon evs.
           entry ty options w
             = w\<lparr>permissionManager := pm, performanceMonitor := pmon,
                 emitted := emitted w @ evs\<rparr>
           \<and> (\<forall>ev\<in>set evs. is_monitor_event ev)"
proof -
  obtain pm where pc: "snd (passive_check ty (merged_passive options w) w)
                         = w\<lparr>permissionManager := pm\<rparr>"
    using passive_check_frame by blast
  let ?w1 = "w\<lparr>permissionManager := pm\<rparr>"
  have i1: "active_unreleased ?w1 = None"
    using assms active_unreleased_cong[of ?w1 w] by simp
  show ?thesis
  proof (cases "opt_performanceMonitoring w")
    case False
    have "entry ty options w = ?w1" using False pc by (simp add: entry_def)
    then show ?thesis
      by (intro exI[of _ pm] exI[of _ "performanceMonitor w"] exI[of _ "[]"]) simp
  next
    case True
    obtain pmon evs where
      ms: "monitor_start ?w1 = ?w1\<lparr>performanceMonitor := pmon, emitted := emitted ?w1 @ evs\<rparr>"
      and ev: "\<forall>ev\<in>set evs. is_monitor_event ev"
      using monitor_start_idle[OF i1] by blast
    have "entry ty options w
            = w\<lparr>permissionManager := pm, performanceMonitor := pmon,
                emitted := emitted w @ evs\<rparr>"
      using True pc ms by (simp add: entry_def)
    then show ?thesis using ev by blast
  qed
qed

definition adopt :: "WakeLockType \<Rightarrow> nat \<Rightarrow> world \<Rightarrow> world" where
  "adopt ty sid w3 =
     (let w4 = setupSentinelListeners sid (w3\<lparr>activeSentinel := Some sid\<rparr>)
      in emit (Enabled ty (current_strategy_name w4)) w4)"

lemma request_orchestrates:
  assumes "\<not> isSSR (host w)" and "active_unreleased w = None"
    and "fst (passive_check ty (merged_passive options w) w) = None"
  shows "request ty options w =
           (case tryStrategies ty (entry ty options w) of
              (Inr sid, w3) \<Rightarrow> (Inr sid, adopt ty sid w3)
            | (Inl e, w3) \<Rightarrow>
                (Inl e, emit (ErrorEvent (as_WakeLockError ''Unknown error'' UNKNOWN None e)) w3))"
proof -
  obtain w1 where pc: "passive_check ty (merged_passive options w) w = (None, w1)"
    using assms(3) by (cases "passive_check ty (merged_passive options w) w") simp
  obtain r w3 where ts: "tryStrategies ty (entry ty options w) = (r, w3)"
    by (cases "tryStrategies ty (entry ty options w)")
  have ts': "tryStrategies ty (if opt_performanceMonitoring w1 then monitor_start w1 else w1)
               = (r, w3)"
    using ts pc by (simp add: entry_def)
  show ?thesis
    using assms(1,2) pc
    by (cases r) (simp_all add: request_def request_try_def ts ts' adopt_def Let_def)
qed

section \<open>What a successful request leaves behind\<close>

lemma adopt_facts:
  "activeSentinel (adopt ty sid w) = Some sid"
  "currentStrategy (adopt ty sid w) = currentStrategy w"
  "calls (adopt ty sid w) = calls w"
  "strats (adopt ty sid w) = strats w"
  "host (adopt ty sid w) = host w"
  "strategies (adopt ty sid w) = strategies w"
  "s_type (sentinels (adopt ty sid w) s) = s_type (sentinels w s)"
  "emitted (adopt ty sid w) = emitted w @ [Enabled ty (current_strategy_name w)]"
  by (simp_all add: adopt_def setupSentinelListeners_def sentinel_addEventListener_def
      current_strategy_name_def prim_defs Let_def split: option.splits)

lemma adopt_released: "sentinel_released (adopt ty sid w) s = sentinel_released w s"
  by (simp add: adopt_def setupSentinelListeners_def sentinel_addEventListener_def
      sentinel_released_def prim_defs Let_def split: option.splits)

lemma adopt_keeps_config: "keeps_config w (adopt ty sid w)"
  by (simp add: adopt_def setupSentinelListeners_def sentinel_addEventListener_def
      keeps_config_def prim_defs Let_def split: option.splits)

lemma sentinel_released_cong:
  "sentinels v = sentinels w \<Longrightarrow> natives v = natives w \<Longrightarrow>
   sentinel_released v s = sentinel_released w s"
  by (auto simp: sentinel_released_def split: option.splits)

lemma tryStrategies_success:
  assumes "tryStrategies ty w = (Inr sid, w')"
  shows "\<exists>k s1 front. k \<in> set (strategies w) \<and> currentStrategy w' = Some k
           \<and> calls w' = calls w @ front @ [(k, ty, Inr s1), (k, ty, Inr sid)]
           \<and> s1 \<noteq> sid
           \<and> s1 \<in> set (active (strats w' k)) \<and> sid \<in> set (active (strats w' k))
           \<and> \<not> sentinel_released w' s1 \<and> \<not> sentinel_released w' sid
           \<and> s_type (sentinels w' sid) = ty"
proof -
  obtain k v v1 where k: "k \<in> set (strategies w)" and fr: "loop_frame w v"
    and at: "attempt k ty v = (Inr sid, v1)" and w': "w' = v1\<lparr>currentStrategy := Some k\<rparr>"
    using tryStrategies_loop_success[of ty "strategies w" "[]" w sid w'] assms
    by (auto simp: tryStrategies_def)
  obtain front where front: "calls v = calls w @ front"
    using fr by (auto simp: loop_frame_def)
  obtain s1 where s: "calls v1 = calls v @ [(k, ty, Inr s1), (k, ty, Inr sid)]"
    "s1 \<noteq> sid" "s1 \<in> set (active (strats v1 k))" "sid \<in> set (active (strats v1 k))"
    "\<not> sentinel_released v1 s1" "\<not> sentinel_released v1 sid" "s_type (sentinels v1 sid) = ty"
    using attempt_success[OF at] by blast
  have "calls w' = calls w @ front @ [(k, ty, Inr s1), (k, ty, Inr sid)]"
    using s(1) front by (simp add: w')
  moreover have "\<not> sentinel_released w' s1" "\<not> sentinel_released w' sid"
    using s(5,6) sentinel_released_cong[of w' v1] by (simp_all add: w')
  ultimately show ?thesis
    using k s(2,3,4,7) by (intro exI[of _ k] exI[of _ s1] exI[of _ front]) (simp add: w')
qed

lemma request_cases:
  "(isSSR (host w) \<and> request ty options w
        = (Inl (WakeLockError ''Wake lock is not supported in server-side rendering''
                  NOT_SUPPORTED None), w))
   \<or> (\<not> isSSR (host w) \<and> (\<exists>sid. active_unreleased w = Some sid
          \<and> request ty options w = (Inr sid, w)))
   \<or> (\<not> isSSR (host w) \<and> active_unreleased w = None
        \<and> (\<exists>e. fst (passive_check ty (merged_passive options w) w) = Some e
             \<and> request ty options w
                 = (Inl e, emit (ErrorEvent (as_WakeLockError ''Unknown error'' UNKNOWN None e))
                             (snd (passive_check ty (merged_passive options w) w)))))
   \<or> (\<not> isSSR (host w) \<and> active_unreleased w = None
        \<and> fst (passive_check ty (merged_passive options w) w) = None
        \<and> request ty options w =
           (case tryStrategies ty (entry ty options w) of
              (Inr sid, w3) \<Rightarrow> (Inr sid, adopt ty sid w3)
            | (Inl e, w3) \<Rightarrow>
                (Inl e, emit (ErrorEvent (as_WakeLockError ''Unknown error'' UNKNOWN None e)) w3)))"
proof (cases "isSSR (host w)")
  case True
  then show ?thesis by (simp add: request_def)
next
  case ssr: False
  show ?thesis
  proof (cases "active_unreleased w")
    case (Some sid)
    then show ?thesis using ssr by (simp add: request_def)
  next
    case None
    show ?thesis
    proof (cases "fst (passive_check ty (merged_passive options w) w)")
      case pc: None
      show ?thesis using ssr None pc request_orchestrates[OF ssr None pc] by simp
    next
      case (Some e)
      then have "request ty options w
                 = (Inl e, emit (ErrorEvent (as_WakeLockError ''Unknown error'' UNKNOWN None e))
                             (snd (passive_check ty (merged_passive options w) w)))"
        using ssr None
        by (cases "passive_check ty (merged_passive options w) w")
          (simp add: request_def request_try_def)
      then show ?thesis using ssr None Some by simp
    qed
  qed
qed

lemma active_unreleased_Some:
  "active_unreleased w = Some sid \<longleftrightarrow> activeSentinel w = Some sid \<and> \<not> sentinel_released w sid"
  by (auto simp: active_unreleased_def split: option.splits if_splits)

lemma request_success_active:
  assumes "request ty options w = (Inr sid, w')"
  shows "activeSentinel w' = Some sid \<and> \<not> sentinel_released w' sid"
proof -
  consider (ssr) "request ty options w
        = (Inl (WakeLockError ''Wake lock is not supported in server-side rendering''
                  NOT_SUPPORTED None), w)"
    | (act) s where "active_unreleased w = Some s" "request ty options w = (Inr s, w)"
    | (pas) e w1 where "request ty options w = (Inl e, w1)"
    | (orc) "request ty options w =
           (case tryStrategies ty (entry ty options w) of
              (Inr sid, w3) \<Rightarrow> (Inr sid, adopt ty sid w3)
            | (Inl e, w3) \<Rightarrow>
                (Inl e, emit (ErrorEvent (as_WakeLockError ''Unknown error'' UNKNOWN None e)) w3))"
    using request_cases[of w ty options] by blast
  then show ?thesis
  proof cases
    case ssr
    then show ?thesis using assms by simp
  next
    case act
    then show ?thesis using assms by (simp add: active_unreleased_Some)
  next
    case pas
    then show ?thesis using assms by simp
  next
    case orc
    obtain r w3 where ts: "tryStrategies ty (entry ty options w) = (r, w3)"
      by (cases "tryStrategies ty (entry ty options w)")
    then have r: "r = Inr sid" and w': "w' = adopt ty sid w3"
      using orc assms by (cases r; simp)+
    have "\<not> sentinel_released w3 sid"
      using tryStrategies_success[of ty "entry ty options w" sid w3] ts r by blast
    then show ?thesis by (simp add: w' adopt_facts adopt_released)
  qed
qed


section \<open>Reachable states\<close>

lemma request_keeps_config: "keeps_config w (snd (request ty options w))"
proof -
  consider (same) "snd (request ty options w) = w"
    | (pas) e where "active_unreleased w = None"
        "snd (request ty options w)
           = emit (ErrorEvent (as_WakeLockError ''Unknown error'' UNKNOWN None e))
               (snd (passive_check ty (merged_passive options w) w))"
    | (orc) "active_unreleased w = None"
        "request ty options w =
           (case tryStrategies ty (entry ty options w) of
              (Inr sid, w3) \<Rightarrow> (Inr sid, adopt ty sid w3)
            | (Inl e, w3) \<Rightarrow>
                (Inl e, emit (ErrorEvent (as_WakeLockError ''Unknown error'' UNKNOWN None e)) w3))"
    using request_cases[of w ty options] by fastforce
  then show ?thesis
  proof cases
    case same
    then show ?thesis by (simp add: keeps_config_refl)
  next
    case pas
    obtain pm where "snd (passive_check ty (merged_passive options w) w)
                       = w\<lparr>permissionManager := pm\<rparr>"
      using passive_check_frame by blast
    then show ?thesis using pas by (simp add: keeps_config_def emit_def)
  next
    case orc
    obtain pm pmon evs where
      en: "entry ty options w = w\<lparr>permissionManager := pm, performanceMonitor := pmon,
                                   emitted := emitted w @ evs\<rparr>"
      using entry_shape[OF orc(1)] by blast
    have a: "keeps_config w (entry ty options w)" by (simp add: en keeps_config_def)
    obtain r w3 where ts: "tryStrategies ty (entry ty options w) = (r, w3)"
      by (cases "tryStrategies ty (entry ty options w)")
    have "loop_frame (entry ty options w) w3"
      using tryStrategies_loop_frame[of "entry ty options w" ty "strategies (entry ty options w)" "[]"]
        ts by (simp add: tryStrategies_def)
    then have "keeps_config (entry ty options w) w3" by (simp add: loop_frame_def)
    with a have b: "keeps_config w w3" by (rule keeps_config_trans)
    show ?thesis
    proof (cases r)
      case (Inl e)
      have "keeps_config w3 (emit ev w3)" for ev by (simp add: keeps_config_def emit_def)
      then show ?thesis using orc(2) ts Inl b by (auto intro: keeps_config_trans)
    next
      case (Inr sid)
      show ?thesis using orc(2) ts Inr b adopt_keeps_config[of w3 ty sid]
        by (auto intro: keeps_config_trans)
    qed
  qed
qed

text \<open>
  The states an instance can be in: built by the constructor, then changed by the calls
  a program can make and by the events the platform can raise.
\<close>

inductive reachable :: "world \<Rightarrow> bool" where
  reach_new:
    "reachable (WakeLock_new p now heap ids batteryOptimization performanceMonitoring passive)"
| reach_request: "reachable w \<Longrightarrow> reachable (snd (request ty options w))"
| reach_release: "reachable w \<Longrightarrow> reachable (snd (release w))"
| reach_sentinel_release: "reachable w \<Longrightarrow> reachable (snd (sentinel_release sid w))"
| reach_strategy_release: "reachable w \<Longrightarrow> reachable (strategy_release k w)"
| reach_strategy_request: "reachable w \<Longrightarrow> reachable (snd (strategy_request k ty w))"
| reach_add:
    "reachable w \<Longrightarrow> reachable (sentinel_addEventListener sid (Subscriber n throws) w)"
| reach_remove:
    "reachable w \<Longrightarrow> reachable (sentinel_removeEventListener sid (Subscriber n throws) w)"
| reach_revoke: "reachable w \<Longrightarrow> reachable (platform_revoke nid w)"
| reach_battery: "reachable w \<Longrightarrow> reachable (on_battery_change level charging w)"
| reach_clock: "reachable w \<Longrightarrow> clock w \<le> now \<Longrightarrow> reachable (w\<lparr>clock := now\<rparr>)"

lemma releases_only_slot:
  assumes "releases_only w w'" and "activeSentinel w \<noteq> None \<longrightarrow> \<not> isSSR (host w)"
  shows "activeSentinel w' \<noteq> None \<longrightarrow> \<not> isSSR (host w')"
  using assms by (auto simp: releases_only_def keeps_config_def)

lemma on_battery_change_releases: "releases_only w (on_battery_change level charging w)"
proof -
  have a: "releases_only w (emit (BatteryChange level charging) w)" by (rule emit_releases)
  have "releases_only w (snd (release (emit (BatteryChange level charging) w)))"
    using a release_releases by (rule releases_only_trans)
  then show ?thesis using a by (cases charging) (simp_all add: on_battery_change_def Let_def)
qed

lemma reachable_browser:
  "reachable w \<Longrightarrow> activeSentinel w \<noteq> None \<longrightarrow> \<not> isSSR (host w)"
proof (induction rule: reachable.induct)
  case (reach_new p now heap ids batteryOptimization performanceMonitoring pas)
  show ?case by (simp add: WakeLock_new_def)
next
  case (reach_request w ty options)
  show ?case
  proof (cases "isSSR (host w)")
    case True
    then show ?thesis using reach_request.IH by (simp add: request_def)
  next
    case False
    then show ?thesis
      using request_keeps_config[of w ty options] by (simp add: keeps_config_def)
  qed
next
  case (reach_release w)
  show ?case using release_releases reach_release.IH by (rule releases_only_slot)
next
  case (reach_sentinel_release w sid)
  show ?case using sentinel_release_releases reach_sentinel_release.IH
    by (rule releases_only_slot)
next
  case (reach_strategy_release w k)
  show ?case using strategy_release_releases reach_strategy_release.IH
    by (rule releases_only_slot)
next
  case (reach_strategy_request w k ty)
  show ?case
    using strategy_request_keeps[of w k ty] reach_strategy_request.IH
    by (simp add: keeps_orchestrator_def keeps_config_def)
next
  case (reach_add w sid n throws)
  then show ?case
    by (simp add: sentinel_addEventListener_def prim_defs Let_def split: option.splits)
next
  case (reach_remove w sid n throws)
  then show ?case
    by (simp add: sentinel_removeEventListener_def prim_defs Let_def split: option.splits)
next
  case (reach_revoke w nid)
  show ?case using platform_revoke_releases reach_revoke.IH by (rule releases_only_slot)
next
  case (reach_battery w level charging)
  show ?case using on_battery_change_releases reach_battery.IH by (rule releases_only_slot)
next
  case (reach_clock w now)
  then show ?case by simp
qed

section \<open>The notifications of tryStrategies\<close>

lemma indexOf_absent: "x \<notin> set xs \<Longrightarrow> indexOf xs x = - 1"
  by (induction xs) (auto simp: Let_def)

lemma indexOf_nonneg: "x \<in> set xs \<Longrightarrow> 0 \<le> indexOf xs x"
  by (induction xs) (auto simp: Let_def)






text \<open>
  The error \<open>tryStrategies\<close> throws after the loop, as a function of the messages it
  joins; the error of the passive check; and the error of the server-side guard.
\<close>

definition all_failed_message :: "string list \<Rightarrow> js_error" where
  "all_failed_message ms =
     WakeLockError (''All wake lock strategies failed. Errors: '' @ join '', '' ms)
       STRATEGY_FAILED None"

definition permission_denied :: js_error where
  "permission_denied =
     WakeLockError ''Wake lock would require user prompt, but passive mode is enabled''
       PERMISSION_DENIED None"

definition ssr_error :: js_error where
  "ssr_error =
     WakeLockError ''Wake lock is not supported in server-side rendering'' NOT_SUPPORTED None"



section \<open>When every strategy fails\<close>

text \<open>
  The errors thrown by the strategies of a list when each is attempted in turn, as
  \<open>tryStrategies\<close> attempts them; \<open>None\<close> when one of them succeeds.
\<close>

fun attempt_failures :: "WakeLockType \<Rightarrow> nat list \<Rightarrow> world \<Rightarrow> js_error list option" where
  "attempt_failures ty [] w = Some []"
| "attempt_failures ty (k # ks) w =
     (case attempt k ty w of
        (Inr sid, w1) \<Rightarrow> None
      | (Inl e, w1) \<Rightarrow> map_option ((#) e) (attempt_failures ty ks w1))"

lemma attempt_failures_length:
  "attempt_failures ty ks w = Some es \<Longrightarrow> length es = length ks"
  by (induction ks arbitrary: w es) (auto split: prod.splits sum.splits)

lemma loop_step_same_stores: "same_stores w (loop_step k e w)"
  by (simp add: loop_step_def same_stores_def emit_def split: option.splits)

lemma tryStrategies_loop_all_fail:
  assumes "same_stores v w" and "attempt_failures ty ks v = Some es"
  shows "\<exists>w'. tryStrategies_loop ty ks errors w
           = (Inl (all_failed_message
                     (map (message_or []) errors @ map (message_or ''Strategy failed'') es)),
              w')"
  using assms
proof (induction ks arbitrary: v w errors es)
  case Nil
  then show ?case by (simp add: all_failed_def all_failed_message_def)
next
  case (Cons k ks)
  obtain e v1 es' where a: "attempt k ty v = (Inl e, v1)"
    and f: "attempt_failures ty ks v1 = Some es'" and es: "es = e # es'"
    using Cons.prems(2) by (auto split: prod.splits sum.splits)
  obtain w1 where b: "attempt k ty w = (Inl e, w1)" and s1: "same_stores v1 w1"
    using attempt_same_stores[OF Cons.prems(1) a] by blast
  have s2: "same_stores v1 (loop_step k e w1)"
    using s1 loop_step_same_stores[of w1 k e] by (rule same_stores_trans)
  let ?errs = "errors @ [as_WakeLockError ''Strategy failed'' STRATEGY_FAILED
                           (Some (strategy_name (kind (strats w1 k)))) e]"
  obtain w' where
    "tryStrategies_loop ty ks ?errs (loop_step k e w1)
       = (Inl (all_failed_message
                 (map (message_or []) ?errs @ map (message_or ''Strategy failed'') es')), w')"
    using Cons.IH[OF s2 f] by blast
  then show ?case using b es by (simp add: loop_Cons message_as_WakeLockError)
qed

section \<open>The first strategy fails and the second succeeds\<close>

text \<open>The constructor keeps a list of distinct strategy objects distinct.\<close>

lemma WakeLock_new_distinct:
  "distinct ids \<Longrightarrow>
   distinct (strategies (WakeLock_new p now heap ids batteryOptimization
                           performanceMonitoring pas))"
  by (simp add: WakeLock_new_def)

lemma request_keeps_distinct:
  "distinct (strategies w) \<Longrightarrow> distinct (strategies (snd (request ty options w)))"
  using request_keeps_config[of w ty options] by (simp add: keeps_config_def)




lemma passive_check_error:
  "fst (passive_check ty passive w) = Some e \<Longrightarrow> e = permission_denied"
  by (auto simp: passive_check_def permission_denied_def split: if_splits prod.splits)

lemma entry_facts:
  assumes "active_unreleased w = None"
  shows "same_stores w (entry ty options w)" and "keeps_config w (entry ty options w)"
    and "activeSentinel (entry ty options w) = activeSentinel w"
    and "\<exists>evs. emitted (entry ty options w) = emitted w @ evs
              \<and> (\<forall>ev\<in>set evs. is_monitor_event ev)"
proof -
  obtain pm pmon evs where
    en: "entry ty options w = w\<lparr>permissionManager := pm, performanceMonitor := pmon,
                                 emitted := emitted w @ evs\<rparr>"
    and ev: "\<forall>ev\<in>set evs. is_monitor_event ev"
    using entry_shape[OF assms] by blast
  show "same_stores w (entry ty options w)" by (simp add: en same_stores_def)
  show "keeps_config w (entry ty options w)" by (simp add: en keeps_config_def)
  show "activeSentinel (entry ty options w) = activeSentinel w" by (simp add: en)
  show "\<exists>evs. emitted (entry ty options w) = emitted w @ evs
              \<and> (\<forall>ev\<in>set evs. is_monitor_event ev)"
    using ev by (intro exI[of _ evs]) (simp add: en)
qed


section \<open>A request with no strategy to try\<close>

lemma request_no_strategies:
  assumes "strategies w = []" and "activeSentinel w = None"
  shows "fst (request ty options w) = Inl ((if isSSR (host w) then ssr_error
                 else if fst (passive_check ty (merged_passive options w) w) = None
                      then all_failed_message [] else permission_denied))"
    and "activeSentinel (snd (request ty options w)) = None"
    and "calls (snd (request ty options w)) = calls w"
    and "strats (snd (request ty options w)) = strats w"
proof -
  have idle: "active_unreleased w = None" using assms(2) by (simp add: active_unreleased_def)
  have "fst (request ty options w) = Inl ((if isSSR (host w) then ssr_error
                 else if fst (passive_check ty (merged_passive options w) w) = None
                      then all_failed_message [] else permission_denied))
        \<and> activeSentinel (snd (request ty options w)) = None
        \<and> calls (snd (request ty options w)) = calls w
        \<and> strats (snd (request ty options w)) = strats w"
  proof (cases "isSSR (host w)")
    case True
    then show ?thesis using assms(2) by (simp add: request_def ssr_error_def)
  next
    case ssr: False
    obtain pm where pm: "snd (passive_check ty (merged_passive options w) w)
                           = w\<lparr>permissionManager := pm\<rparr>"
      using passive_check_frame by blast
    show ?thesis
    proof (cases "fst (passive_check ty (merged_passive options w) w)")
      case (Some e)
      have e: "e = permission_denied"
        using passive_check_error[OF Some] by (simp add: permission_denied_def)
      have "request ty options w
              = (Inl e, emit (ErrorEvent (as_WakeLockError ''Unknown error'' UNKNOWN None e))
                          (snd (passive_check ty (merged_passive options w) w)))"
        using request_cases[of w ty options] ssr idle Some by auto
      then show ?thesis
        using ssr Some e assms(2) by (simp add: pm emit_def)
    next
      case None
      let ?v = "entry ty options w"
      note ef = entry_facts[OF idle, of ty options]
      have stv: "strategies ?v = []" using ef(2) assms(1) by (simp add: keeps_config_def)
      have ts: "tryStrategies ty ?v = (Inl (all_failed_message []), ?v)"
        by (simp add: tryStrategies_def stv all_failed_def all_failed_message_def)
      have "request ty options w
              = (Inl (all_failed_message []),
                 emit (ErrorEvent (as_WakeLockError ''Unknown error'' UNKNOWN None
                                     (all_failed_message []))) ?v)"
        using request_orchestrates[OF ssr idle None] ts by simp
      then show ?thesis
        using ssr None ef(1,3) assms(2)
        by (simp add: emit_def same_stores_def)
    qed
  qed
  then show "fst (request ty options w) = Inl ((if isSSR (host w) then ssr_error
                 else if fst (passive_check ty (merged_passive options w) w) = None
                      then all_failed_message [] else permission_denied))"
    and "activeSentinel (snd (request ty options w)) = None"
    and "calls (snd (request ty options w)) = calls w"
    and "strats (snd (request ty options w)) = strats w"
    by simp_all
qed

lemma releases_only_has_strategy:
  assumes "releases_only w w'" and "activeSentinel w \<noteq> None \<longrightarrow> strategies w \<noteq> []"
  shows "activeSentinel w' \<noteq> None \<longrightarrow> strategies w' \<noteq> []"
  using assms by (auto simp: releases_only_def keeps_config_def)

lemma reachable_has_strategy:
  "reachable w \<Longrightarrow> activeSentinel w \<noteq> None \<longrightarrow> strategies w \<noteq> []"
proof (induction rule: reachable.induct)
  case (reach_new p now heap ids batteryOptimization performanceMonitoring pas)
  show ?case by (simp add: WakeLock_new_def)
next
  case (reach_request w ty options)
  have k: "strategies (snd (request ty options w)) = strategies w"
    using request_keeps_config[of w ty options] by (simp add: keeps_config_def)
  show ?case
  proof (cases "strategies w = []")
    case True
    then have "activeSentinel w = None" using reach_request.IH by blast
    then show ?thesis using request_no_strategies(2)[OF True] by simp
  next
    case False
    then show ?thesis using k by simp
  qed
next
  case (reach_release w)
  show ?case using release_releases reach_release.IH by (rule releases_only_has_strategy)
next
  case (reach_sentinel_release w sid)
  show ?case using sentinel_release_releases reach_sentinel_release.IH
    by (rule releases_only_has_strategy)
next
  case (reach_strategy_release w k)
  show ?case using strategy_release_releases reach_strategy_release.IH
    by (rule releases_only_has_strategy)
next
  case (reach_strategy_request w k ty)
  show ?case
    using strategy_request_keeps[of w k ty] reach_strategy_request.IH
    by (simp add: keeps_orchestrator_def keeps_config_def)
next
  case (reach_add w sid n throws)
  then show ?case
    by (simp add: sentinel_addEventListener_def prim_defs Let_def split: option.splits)
next
  case (reach_remove w sid n throws)
  then show ?case
    by (simp add: sentinel_removeEventListener_def prim_defs Let_def split: option.splits)
next
  case (reach_revoke w nid)
  show ?case using platform_revoke_releases reach_revoke.IH by (rule releases_only_has_strategy)
next
  case (reach_battery w level charging)
  show ?case using on_battery_change_releases reach_battery.IH
    by (rule releases_only_has_strategy)
next
  case (reach_clock w now)
  then show ?case by simp
qed

section \<open>Further example instances\<close>

lemmas eval_defs = fresh_instance_def passive_instance_def WakeLock_new_def platform_defs
  permission_defs prim_defs
  request_def request_try_def passive_check_def merged_passive_def active_unreleased_def
  tryStrategies_def tryStrategies_loop.simps attempt_def strategy_request_def
  dispatch_request_def
  ScreenWakeLockStrategy_request_def VideoElementStrategy_request_def
  AudioContextStrategy_request_def TimerStrategy_request_def
  platform_acquire_def new_sentinel_def monitor_start_def on_battery_change_def
  on_performance_def throttledEmitPerformance_def release_def release_try_def
  sentinel_release_def releaseSentinel_def finish_release_def notify_def native_release_def
  dispatch_release_def monitor_stop_def setupSentinelListeners_def
  sentinel_addEventListener_def current_strategy_name_def as_WakeLockError_def
  all_failed_def at_index_def set_add_def set_delete_def sentinel_released_def
  timeout_or_def is_Error_def no_resource_def strategy_release_def release_one_def
  isSupported_def Let_def

text \<open>
  The default instance after \<open>request('screen')\<close>: the native lock was refused, the video
  strategy won, and sentinel 1 is the active one.
\<close>

definition screen_locked :: world where
  "screen_locked = snd (request Screen no_options fresh_instance)"

lemma screen_locked_result: "request Screen no_options fresh_instance = (Inr 1, screen_locked)"
proof -
  have "fst (request Screen no_options fresh_instance) = Inr 1" by (simp add: eval_defs)
  then show ?thesis by (simp add: screen_locked_def prod_eq_iff)
qed

lemma screen_locked_reachable: "reachable screen_locked"
  unfolding screen_locked_def fresh_instance_def by (intro reach_request reach_new)

text \<open>An instance with the timer strategy alone and the monitor switched off.\<close>

definition timer_instance :: world where
  "timer_instance = WakeLock_new browser 1000 default_strategies [3] None (Some False) None"

definition timer_locked :: world where
  "timer_locked = snd (request Screen no_options timer_instance)"

text \<open>
  Strategy objects whose platform grants every acquisition; the first native handle
  rejects its \<open>release()\<close>.
\<close>

definition granting :: "nat \<Rightarrow> js_error + resource" where
  "granting n =
     Inr \<lparr>release_error = (if n = 0 then Some (JsError ''Error'' ''Release failed'') else None),
          fires_release = True\<rparr>"

definition granting_strategies :: "nat \<Rightarrow> strategy" where
  "granting_strategies k = (default_strategies k)\<lparr>acquire := granting\<rparr>"

text \<open>Two sentinels held by the native strategy, acquired through its own \<open>request\<close>.\<close>

definition two_locks :: world where
  "two_locks =
     snd (strategy_request 0 Screen
            (snd (strategy_request 0 Screen
                    (WakeLock_new browser 1000 granting_strategies [0] None None None))))"

text \<open>
  A sentinel of the native strategy, and one of the timer strategy, each with the caller's
  callback 7 subscribed to \<open>release\<close>.
\<close>

definition screen_subscribed :: world where
  "screen_subscribed =
     sentinel_addEventListener 0 (Subscriber 7 False)
       (snd (strategy_request 0 Screen
               (WakeLock_new browser 1000 default_strategies [0] None None None
                  \<lparr>strats := (\<lambda>k. (default_strategies k)\<lparr>acquire := acquired\<rparr>)\<rparr>)))"

definition timer_subscribed :: world where
  "timer_subscribed =
     sentinel_addEventListener 0 (Subscriber 7 False)
       (snd (strategy_request 3 Screen
               (WakeLock_new browser 1000 default_strategies [3] None None None)))"

text \<open>
  The default strategies without the timer, which fail one after the other for a system
  lock; an instance constructed with \<open>strategies: []\<close>; and one constructed with
  \<open>strategies: []\<close> and \<open>passive: true\<close> in a hidden page whose permission is still to be
  asked for.
\<close>

definition no_timer_instance :: world where
  "no_timer_instance =
     WakeLock_new browser 1000 default_strategies [2, 1, 0] None (Some False) None"

definition empty_instance :: world where
  "empty_instance = WakeLock_new browser 1000 default_strategies [] None None None"

definition passive_empty_instance :: world where
  "passive_empty_instance =
     WakeLock_new hidden_browser 1000 default_strategies [] None None (Some True)"



definition server :: platform where
  "server = browser\<lparr>ssr := True\<rparr>"


section \<open>The claims about request and release\<close>

text \<open>
  Claim C1.  An instance that holds an active sentinel that is not released answers every
  further \<open>request\<close>, of either kind and with any options, with that same sentinel, and the
  call changes nothing: no strategy is invoked and nothing is emitted.  The instance is
  any state reached from the constructor by the operations of \<open>reachable\<close>.
\<close>

theorem request_idempotent:
  assumes "reachable w" and "activeSentinel w = Some sid" and "\<not> sentinel_released w sid"
  shows "request ty options w = (Inr sid, w)"
proof -
  have "\<not> isSSR (host w)" using reachable_browser[OF assms(1)] assms(2) by simp
  then show ?thesis using assms(2,3) by (rule request_active)
qed

theorem request_idempotent_witness:
  "reachable screen_locked \<and> activeSentinel screen_locked = Some 1
   \<and> \<not> sentinel_released screen_locked 1
   \<and> request Screen no_options screen_locked = (Inr 1, screen_locked)
   \<and> request System \<lparr>ro_passive = Present True\<rparr> screen_locked = (Inr 1, screen_locked)"
proof -
  note a = request_success_active[OF screen_locked_result]
  have h2: "activeSentinel screen_locked = Some 1" using a by simp
  have h3: "\<not> sentinel_released screen_locked 1" using a by simp
  show ?thesis
    using screen_locked_reachable h2 h3
      request_idempotent[OF screen_locked_reachable h2 h3, of Screen no_options]
      request_idempotent[OF screen_locked_reachable h2 h3, of System "\<lparr>ro_passive = Present True\<rparr>"]
    by simp
qed

text \<open>
  Claim C10.  When the active, unreleased sentinel is of the other kind than the one
  requested, \<open>request\<close> still returns it, without an error and without a change of state:
  the sentinel handed back has a kind different from the requested one.
\<close>

theorem request_ignores_kind:
  assumes "reachable w" and "activeSentinel w = Some sid" and "\<not> sentinel_released w sid"
    and "s_type (sentinels w sid) \<noteq> ty"
  shows "request ty options w = (Inr sid, w)
         \<and> s_type (sentinels (snd (request ty options w)) sid) \<noteq> ty"
proof -
  have "\<not> isSSR (host w)" using reachable_browser[OF assms(1)] assms(2) by simp
  then have "request ty options w = (Inr sid, w)" using assms(2,3) by (rule request_active)
  then show ?thesis using assms(4) by simp
qed

theorem request_ignores_kind_witness:
  "s_type (sentinels screen_locked 1) = Screen
   \<and> request System no_options screen_locked = (Inr 1, screen_locked)
   \<and> s_type (sentinels (snd (request System no_options screen_locked)) 1) \<noteq> System"
proof -
  note a = request_success_active[OF screen_locked_result]
  have h2: "activeSentinel screen_locked = Some 1" using a by simp
  have h3: "\<not> sentinel_released screen_locked 1" using a by simp
  have h4: "s_type (sentinels screen_locked 1) = Screen"
    by (simp add: screen_locked_def eval_defs)
  have h4': "s_type (sentinels screen_locked 1) \<noteq> System" using h4 by simp
  show ?thesis
    using h4 request_ignores_kind[OF screen_locked_reachable h2 h3 h4', of no_options]
    by simp
qed

text \<open>
  Claim C9.  A request that goes through the strategies and succeeds has invoked the
  winning strategy's \<open>request\<close> twice: the record of invocations ends with two successful
  calls of that strategy, the first from inside \<open>measureStrategy\<close>.  Their two sentinels
  are different, both are in the winning strategy's active collection and both are
  unreleased, and the orchestrator's slot holds the second one only.
\<close>

theorem request_acquires_twice:
  assumes "active_unreleased w = None" and "request ty options w = (Inr sid, w')"
  shows "\<exists>k s1 front. k \<in> set (strategies w) \<and> currentStrategy w' = Some k
           \<and> calls w' = calls w @ front @ [(k, ty, Inr s1), (k, ty, Inr sid)]
           \<and> s1 \<noteq> sid
           \<and> s1 \<in> set (active (strats w' k)) \<and> sid \<in> set (active (strats w' k))
           \<and> \<not> sentinel_released w' s1 \<and> \<not> sentinel_released w' sid
           \<and> activeSentinel w' = Some sid \<and> activeSentinel w' \<noteq> Some s1"
proof -
  have orc: "request ty options w =
           (case tryStrategies ty (entry ty options w) of
              (Inr sid, w3) \<Rightarrow> (Inr sid, adopt ty sid w3)
            | (Inl e, w3) \<Rightarrow>
                (Inl e, emit (ErrorEvent (as_WakeLockError ''Unknown error'' UNKNOWN None e)) w3))"
    using request_cases[of w ty options] assms by auto
  obtain r w3 where ts: "tryStrategies ty (entry ty options w) = (r, w3)"
    by (cases "tryStrategies ty (entry ty options w)")
  have r: "r = Inr sid" and w': "w' = adopt ty sid w3"
    using orc assms(2) ts by (cases r; simp)+
  obtain pm pmon evs where
    en: "entry ty options w = w\<lparr>permissionManager := pm, performanceMonitor := pmon,
                                 emitted := emitted w @ evs\<rparr>"
    using entry_shape[OF assms(1)] by blast
  obtain k s1 front where f:
    "k \<in> set (strategies (entry ty options w))" "currentStrategy w3 = Some k"
    "calls w3 = calls (entry ty options w) @ front @ [(k, ty, Inr s1), (k, ty, Inr sid)]"
    "s1 \<noteq> sid" "s1 \<in> set (active (strats w3 k))" "sid \<in> set (active (strats w3 k))"
    "\<not> sentinel_released w3 s1" "\<not> sentinel_released w3 sid"
    using tryStrategies_success[of ty "entry ty options w" sid w3] ts r by blast
  show ?thesis
    using f
    by (intro exI[of _ k] exI[of _ s1] exI[of _ front])
      (simp add: w' adopt_facts adopt_released en)
qed

theorem request_acquires_twice_witness:
  "active_unreleased fresh_instance = None
   \<and> request Screen no_options fresh_instance = (Inr 1, screen_locked)
   \<and> (\<exists>k s1 front. k \<in> set (strategies fresh_instance)
         \<and> currentStrategy screen_locked = Some k
         \<and> calls screen_locked
             = calls fresh_instance @ front @ [(k, Screen, Inr s1), (k, Screen, Inr 1)]
         \<and> s1 \<noteq> 1
         \<and> s1 \<in> set (active (strats screen_locked k))
         \<and> 1 \<in> set (active (strats screen_locked k))
         \<and> \<not> sentinel_released screen_locked s1 \<and> \<not> sentinel_released screen_locked 1
         \<and> activeSentinel screen_locked = Some 1 \<and> activeSentinel screen_locked \<noteq> Some s1)"
proof -
  have h1: "active_unreleased fresh_instance = None"
    by (simp add: fresh_instance_def WakeLock_new_def active_unreleased_def)
  show ?thesis
    using h1 screen_locked_result request_acquires_twice[OF h1 screen_locked_result]
    by simp
qed




section \<open>The claims about the fallback chain\<close>




text \<open>
  Claim C5.  When every strategy of the list fails, \<open>request\<close> rejects with a
  STRATEGY\_FAILED error whose message joins the messages of all the failures, one for each
  strategy, in the order of the list.  With an empty list \<open>isSupported\<close> is false and
  \<open>request\<close> rejects without invoking a strategy; the error is the one of the first check
  that fails: NOT\_SUPPORTED under server-side rendering, PERMISSION\_DENIED when the passive
  check refuses, and STRATEGY\_FAILED, with no message to join, otherwise.
\<close>

theorem all_strategies_fail:
  "(\<not> isSSR (host w) \<and> active_unreleased w = None
    \<and> fst (passive_check ty (merged_passive options w) w) = None
    \<and> attempt_failures ty (strategies w) w = Some es
    \<longrightarrow> fst (request ty options w)
          = Inl (all_failed_message (map (message_or ''Strategy failed'') es))
        \<and> length es = length (strategies w))
   \<and> (reachable w \<and> strategies w = []
      \<longrightarrow> \<not> isSupported w
          \<and> fst (request ty options w) = Inl (if isSSR (host w) then ssr_error
                     else if fst (passive_check ty (merged_passive options w) w) = None
                          then all_failed_message [] else permission_denied)
          \<and> calls (snd (request ty options w)) = calls w
          \<and> strats (snd (request ty options w)) = strats w)"
proof (rule conjI, rule impI)
  assume h: "\<not> isSSR (host w) \<and> active_unreleased w = None
    \<and> fst (passive_check ty (merged_passive options w) w) = None
    \<and> attempt_failures ty (strategies w) w = Some es"
  let ?v = "entry ty options w"
  have idle: "active_unreleased w = None" using h by simp
  note ef = entry_facts[OF idle, of ty options]
  have stv: "strategies ?v = strategies w" using ef(2) by (simp add: keeps_config_def)
  have af: "attempt_failures ty (strategies w) w = Some es" using h by simp
  obtain w' where
    "tryStrategies_loop ty (strategies w) [] ?v
       = (Inl (all_failed_message
                 (map (message_or []) [] @ map (message_or ''Strategy failed'') es)), w')"
    using tryStrategies_loop_all_fail[OF ef(1) af, of "[]"] by blast
  then have ts: "tryStrategies ty ?v
                   = (Inl (all_failed_message (map (message_or ''Strategy failed'') es)), w')"
    by (simp add: tryStrategies_def stv)
  have "fst (request ty options w)
          = Inl (all_failed_message (map (message_or ''Strategy failed'') es))"
    using request_orchestrates[of w ty options] h ts by simp
  then show "fst (request ty options w)
          = Inl (all_failed_message (map (message_or ''Strategy failed'') es))
        \<and> length es = length (strategies w)"
    using attempt_failures_length[OF af] by simp
next
  show "reachable w \<and> strategies w = []
      \<longrightarrow> \<not> isSupported w
          \<and> fst (request ty options w) = Inl (if isSSR (host w) then ssr_error
                     else if fst (passive_check ty (merged_passive options w) w) = None
                          then all_failed_message [] else permission_denied)
          \<and> calls (snd (request ty options w)) = calls w
          \<and> strats (snd (request ty options w)) = strats w"
  proof (rule impI)
    assume h: "reachable w \<and> strategies w = []"
    have e: "strategies w = []" using h by simp
    have n: "activeSentinel w = None" using reachable_has_strategy[of w] h by blast
    have "\<not> isSupported w" using e by (simp add: isSupported_def)
    then show "\<not> isSupported w
          \<and> fst (request ty options w) = Inl (if isSSR (host w) then ssr_error
                     else if fst (passive_check ty (merged_passive options w) w) = None
                          then all_failed_message [] else permission_denied)
          \<and> calls (snd (request ty options w)) = calls w
          \<and> strats (snd (request ty options w)) = strats w"
      using request_no_strategies[OF e n, of ty options] by simp
  qed
qed

theorem all_strategies_fail_witness:
  "\<not> isSSR (host no_timer_instance) \<and> active_unreleased no_timer_instance = None
   \<and> fst (passive_check System (merged_passive no_options no_timer_instance)
            no_timer_instance) = None
   \<and> strategies no_timer_instance = [0, 1, 2]
   \<and> attempt_failures System (strategies no_timer_instance) no_timer_instance
       = Some [WakeLockError
                 ''System wake locks are not yet supported by the Screen Wake Lock API''
                 NOT_SUPPORTED (Some ''screen-wake-lock''),
               WakeLockError ''System wake locks are not supported by video element strategy''
                 NOT_SUPPORTED (Some ''video-element''),
               WakeLockError ''System wake locks are not supported by audio context strategy''
                 NOT_SUPPORTED (Some ''audio-context'')]
   \<and> fst (request System no_options no_timer_instance)
       = Inl (WakeLockError
                (''All wake lock strategies failed. Errors: ''
                 @ ''System wake locks are not yet supported by the Screen Wake Lock API, ''
                 @ ''System wake locks are not supported by video element strategy, ''
                 @ ''System wake locks are not supported by audio context strategy'')
                STRATEGY_FAILED None)
   \<and> reachable empty_instance \<and> strategies empty_instance = []
   \<and> \<not> isSupported empty_instance
   \<and> fst (request Screen no_options empty_instance)
       = Inl (WakeLockError ''All wake lock strategies failed. Errors: '' STRATEGY_FAILED None)
   \<and> calls (snd (request Screen no_options empty_instance)) = []"
proof -
  let ?es = "[WakeLockError
                 ''System wake locks are not yet supported by the Screen Wake Lock API''
                 NOT_SUPPORTED (Some ''screen-wake-lock''),
               WakeLockError ''System wake locks are not supported by video element strategy''
                 NOT_SUPPORTED (Some ''video-element''),
               WakeLockError ''System wake locks are not supported by audio context strategy''
                 NOT_SUPPORTED (Some ''audio-context'')]"
  have h1: "\<not> isSSR (host no_timer_instance)"
    by (simp add: no_timer_instance_def eval_defs)
  have h2: "active_unreleased no_timer_instance = None"
    by (simp add: no_timer_instance_def WakeLock_new_def active_unreleased_def)
  have h3: "fst (passive_check System (merged_passive no_options no_timer_instance)
                   no_timer_instance) = None"
    by (simp add: no_timer_instance_def eval_defs)
  have st: "strategies no_timer_instance = [0, 1, 2]"
    by (simp add: no_timer_instance_def eval_defs)
  have h4: "attempt_failures System (strategies no_timer_instance) no_timer_instance = Some ?es"
    by (simp add: no_timer_instance_def eval_defs)
  have r1: "fst (request System no_options no_timer_instance)
              = Inl (all_failed_message (map (message_or ''Strategy failed'') ?es))"
    using all_strategies_fail[of no_timer_instance System no_options ?es] h1 h2 h3 h4 by blast
  have r1': "fst (request System no_options no_timer_instance)
       = Inl (WakeLockError
                (''All wake lock strategies failed. Errors: ''
                 @ ''System wake locks are not yet supported by the Screen Wake Lock API, ''
                 @ ''System wake locks are not supported by video element strategy, ''
                 @ ''System wake locks are not supported by audio context strategy'')
                STRATEGY_FAILED None)"
    using r1 by (simp add: all_failed_message_def)
  have g1: "reachable empty_instance" unfolding empty_instance_def by (rule reach_new)
  have g2: "strategies empty_instance = []" by (simp add: empty_instance_def eval_defs)
  have g3: "\<not> isSSR (host empty_instance)"
    "fst (passive_check Screen (merged_passive no_options empty_instance) empty_instance) = None"
    "calls empty_instance = []"
    by (simp_all add: empty_instance_def eval_defs)
  have r2: "\<not> isSupported empty_instance
          \<and> fst (request Screen no_options empty_instance)
              = Inl (if isSSR (host empty_instance) then ssr_error
                     else if fst (passive_check Screen
                                    (merged_passive no_options empty_instance)
                                    empty_instance) = None
                          then all_failed_message [] else permission_denied)
          \<and> calls (snd (request Screen no_options empty_instance)) = calls empty_instance"
    using all_strategies_fail[of empty_instance Screen no_options "[]"] g1 g2 by blast
  have r2': "fst (request Screen no_options empty_instance)
       = Inl (WakeLockError ''All wake lock strategies failed. Errors: '' STRATEGY_FAILED None)"
    "calls (snd (request Screen no_options empty_instance)) = []"
    using r2 g3 by (simp_all add: all_failed_message_def)
  show ?thesis using h1 h2 h3 st h4 r1' g1 g2 r2 r2' by simp
qed

text \<open>
  An instance constructed with \<open>strategies: []\<close> and \<open>passive: true\<close>, in a hidden page whose
  permission is still to be asked for: \<open>request\<close> rejects with PERMISSION\_DENIED, not with
  STRATEGY\_FAILED.
\<close>

theorem empty_list_passive_permission_denied:
  "strategies passive_empty_instance = []
   \<and> reachable passive_empty_instance
   \<and> fst (request Screen no_options passive_empty_instance)
       = Inl (WakeLockError ''Wake lock would require user prompt, but passive mode is enabled''
                PERMISSION_DENIED None)"
proof -
  have "strategies passive_empty_instance = []"
    and "fst (request Screen no_options passive_empty_instance)
       = Inl (WakeLockError ''Wake lock would require user prompt, but passive mode is enabled''
                PERMISSION_DENIED None)"
    by (simp_all add: passive_empty_instance_def eval_defs)
  moreover have "reachable passive_empty_instance"
    unfolding passive_empty_instance_def by (rule reach_new)
  ultimately show ?thesis by simp
qed

section \<open>The claims about sentinels and strategies\<close>

text \<open>
  Claim C6.  \<open>release()\<close> of a strategy, of any of the four classes, leaves the strategy's
  active collection empty and every sentinel that was in it released, whatever the
  teardown of the single sentinels does: the statement holds for every platform
  resource, also one whose teardown throws or whose native \<open>release()\<close> rejects.  The
  sentinels of the native strategy are the wrappers of native handles.
\<close>

theorem strategy_release_releases_all:
  assumes "\<forall>sid\<in>set (active (strats w k)). kind (strats w k) = ScreenWakeLockStrategy
             \<longrightarrow> s_native (sentinels w sid) \<noteq> None"
  shows "active (strats (strategy_release k w) k) = []
         \<and> (\<forall>sid\<in>set (active (strats w k)).
               s_released (sentinels (strategy_release k w) sid)
               \<and> sentinel_released (strategy_release k w) sid)"
proof -
  have "\<forall>sid\<in>set (active (strats w k)).
          s_released (sentinels (fold (release_one k) (active (strats w k)) w) sid)"
    using releases_only_refl assms by (rule fold_release_one_marks)
  then show ?thesis
    by (simp add: strategy_release_def prim_defs sentinel_released_def)
qed

theorem strategy_release_releases_all_witness:
  "kind (strats two_locks 0) = ScreenWakeLockStrategy
   \<and> active (strats two_locks 0) = [0, 1]
   \<and> s_native (sentinels two_locks 0) = Some 0 \<and> s_native (sentinels two_locks 1) = Some 1
   \<and> release_error (n_resource (natives two_locks 0)) = Some (JsError ''Error'' ''Release failed'')
   \<and> active (strats (strategy_release 0 two_locks) 0) = []
   \<and> s_released (sentinels (strategy_release 0 two_locks) 0)
   \<and> s_released (sentinels (strategy_release 0 two_locks) 1)"
proof -
  have k: "kind (strats two_locks 0) = ScreenWakeLockStrategy"
    and a: "active (strats two_locks 0) = [0, 1]"
    and n: "s_native (sentinels two_locks 0) = Some 0" "s_native (sentinels two_locks 1) = Some 1"
    and e: "release_error (n_resource (natives two_locks 0))
              = Some (JsError ''Error'' ''Release failed'')"
    by (simp_all add: two_locks_def granting_strategies_def granting_def eval_defs)
  have h: "\<forall>sid\<in>set (active (strats two_locks 0)).
             kind (strats two_locks 0) = ScreenWakeLockStrategy
             \<longrightarrow> s_native (sentinels two_locks sid) \<noteq> None"
    using a n by simp
  show ?thesis
    using k a n e strategy_release_releases_all[OF h] by simp
qed

subsection \<open>Releasing one sentinel: who is notified\<close>

text \<open>The callers' callbacks among the listeners, in the order of the set.\<close>

fun subscribers :: "listener list \<Rightarrow> nat list" where
  "subscribers [] = []"
| "subscribers (OnRelease sid # ls) = subscribers ls"
| "subscribers (Subscriber n throws # ls) = n # subscribers ls"

lemma call_listener_notified:
  "notified (call_listener l w) = notified w @ subscribers [l]"
  by (cases l) (simp_all add: monitor_stop_def prim_defs Let_def)

lemma notify_notified: "notified (notify ls w) = notified w @ subscribers ls"
proof (induction ls arbitrary: w)
  case Nil
  show ?case by (simp add: notify_def)
next
  case (Cons l ls)
  have "notified (notify ls (call_listener l w))
          = notified (call_listener l w) @ subscribers ls"
    by (rule Cons.IH)
  moreover have "notify (l # ls) w = notify ls (call_listener l w)"
    by (simp add: notify_def)
  moreover have "subscribers (l # ls) = subscribers [l] @ subscribers ls"
    by (cases l) simp_all
  ultimately show ?case by (simp only: call_listener_notified append_assoc)
qed

lemma notify_listeners:
  "s_releaseListeners (sentinels (notify ls w) sid) = s_releaseListeners (sentinels w sid)"
proof (induction ls arbitrary: w)
  case Nil
  show ?case by (simp add: notify_def)
next
  case (Cons l ls)
  have "s_releaseListeners (sentinels (call_listener l w) sid)
          = s_releaseListeners (sentinels w sid)"
    by (cases l) (simp_all add: monitor_stop_def prim_defs Let_def)
  then show ?case using Cons.IH[of "call_listener l w"] by (simp add: notify_def)
qed

text \<open>
  A sentinel of the video, audio or timer strategy that is tracked and not yet released:
  its \<open>release()\<close> resolves, sets \<open>_released\<close>, calls each subscribed callback once, in
  order, and leaves the listener set empty; and \<open>release()\<close> on a sentinel whose
  \<open>_released\<close> is set does nothing at all.
\<close>

lemma fallback_release_notifies_once:
  assumes "s_native (sentinels w sid) = None" and "\<not> s_released (sentinels w sid)"
    and "sid \<in> set (active (strats w (s_strategy (sentinels w sid))))"
  shows "fst (sentinel_release sid w) = None
         \<and> notified (snd (sentinel_release sid w))
             = notified w @ subscribers (s_releaseListeners (sentinels w sid))
         \<and> s_releaseListeners (sentinels (snd (sentinel_release sid w)) sid) = []
         \<and> s_released (sentinels (snd (sentinel_release sid w)) sid)"
proof -
  have sr: "sentinel_release sid w = (None, releaseSentinel sid w)"
    using assms by (simp add: sentinel_release_def)
  have n: "notified (finish_release sid v)
             = notified v @ subscribers (s_releaseListeners (sentinels v sid))" for v
    by (simp add: finish_release_def Let_def notify_notified prim_defs)
  have l: "s_releaseListeners (sentinels (finish_release sid v) sid) = []" for v
    by (simp add: finish_release_def Let_def prim_defs)
  have "notified (releaseSentinel sid w)
          = notified w @ subscribers (s_releaseListeners (sentinels w sid))"
    using assms(2) by (simp add: releaseSentinel_def Let_def n prim_defs split: option.splits)
  moreover have "s_releaseListeners (sentinels (releaseSentinel sid w) sid) = []"
    using assms(2) by (simp add: releaseSentinel_def Let_def l split: option.splits)
  ultimately show ?thesis by (simp add: sr releaseSentinel_marks)
qed

lemma release_again_is_noop:
  "s_released (sentinels w sid) \<Longrightarrow> sentinel_release sid w = (None, w)"
  by (simp add: sentinel_release_def)

lemma timer_sentinel_notifies_once:
  "notified (snd (sentinel_release 0 timer_subscribed)) = [7]"
  by (simp add: timer_subscribed_def sentinel_addEventListener_def eval_defs)

text \<open>
  Claim C2.  The claim fails for the sentinels of the native strategy.  The wrapper's
  \<open>addEventListener\<close> puts a callback into its own listener set and also registers it on
  the native handle.  \<open>release()\<close> awaits the native \<open>release()\<close>, which dispatches the
  handle's \<open>release\<close> event to the callback, and the \<open>finally\<close> block then calls every
  member of the listener set: callback 7, subscribed once, is invoked twice by one
  successful release.
\<close>

theorem screen_sentinel_notifies_twice:
  "s_releaseListeners (sentinels screen_subscribed 0) = [Subscriber 7 False]
   \<and> notified screen_subscribed = []
   \<and> fst (sentinel_release 0 screen_subscribed) = None
   \<and> notified (snd (sentinel_release 0 screen_subscribed)) = [7, 7]"
  by (simp add: screen_subscribed_def sentinel_addEventListener_def eval_defs)

subsection \<open>WakeLock.release\<close>

lemma release_never_rejects: "fst (release w) = None"
  by (simp add: release_def Let_def split: option.splits prod.splits)

lemma release_clears:
  assumes "active_unreleased w = Some sid" and "\<not> isReleasing w"
  shows "activeSentinel (snd (release w)) = None \<and> currentStrategy (snd (release w)) = None
         \<and> \<not> isReleasing (snd (release w))
         \<and> \<not> isMonitoring (performanceMonitor (snd (release w)))"
  using assms
  by (auto simp: release_def Let_def active_unreleased_Some monitor_stop_def
      split: option.splits prod.splits)

text \<open>
  Claim C3.  \<open>release\<close> never rejects, and it ends with both slots cleared and the
  monitor stopped; but the notification for a successful release is not the one the
  claim names.  The sentinel's release runs the listener that \<open>setupSentinelListeners\<close>
  installed, which emits \<open>disabled\<close> with reason \<open>automatic-release\<close> and sets
  \<open>activeSentinel\<close> to \<open>null\<close>; \<open>release\<close> then reads \<open>this.activeSentinel.type\<close>, the
  \<open>TypeError\<close> lands in its \<open>catch\<close>, and an \<open>error\<close> notification follows.  No
  \<open>disabled\<close> with reason \<open>manual-release\<close> is emitted.  Here: the timer strategy,
  \<open>request('screen')\<close>, then \<open>release()\<close>.
\<close>

theorem release_emits_automatic_then_error:
  "fst (request Screen no_options timer_instance) = Inr 1
   \<and> emitted timer_locked = [Enabled Screen ''timer'']
   \<and> fst (release timer_locked) = None
   \<and> s_released (sentinels (snd (release timer_locked)) 1)
   \<and> emitted (snd (release timer_locked))
       = [Enabled Screen ''timer'', Disabled Screen ''automatic-release'',
          ErrorEvent (WakeLockError ''Cannot read properties of null (reading type)''
                        UNKNOWN None)]
   \<and> activeSentinel (snd (release timer_locked)) = None
   \<and> currentStrategy (snd (release timer_locked)) = None"
  by (simp add: timer_locked_def timer_instance_def eval_defs)

end
